theory Spec2Isabelle
  imports Main "HOL-Library.Multiset"
begin

section \<open>Python strings and the library calls of the scan pipeline\<close>

text \<open>
  A Python \<open>str\<close> is a sequence of Unicode code points, so a string is a list of
  naturals. \<open>py\<close> writes an ASCII literal. The code points that the source names are
  \<open>"\<close> 34, \<open>#\<close> 35, \<open>+\<close> 43, \<open>-\<close> 45, \<open>.\<close> 46, \<open>/\<close> 47, \<open>:\<close> 58, \<open><\<close> 60, \<open>>\<close> 62,
  \<open>?\<close> 63, \<open>@\<close> 64, \<open>[\<close> 91, backslash 92, \<open>]\<close> 93, \<open>^\<close> 94, \<open>_\<close> 95, backquote 96,
  \<open>{\<close> 123, \<open>|\<close> 124, \<open>}\<close> 125.
\<close>

type_synonym pystr = "nat list"

definition py :: "string \<Rightarrow> pystr" where
  "py s = map of_char s"

text \<open>
  The tables of the Unicode database that the library calls consult are parameters:
  \<open>unicodedata.normalize('NFKC', _)\<close>, \<open>str.isalnum\<close> outside ASCII, and the check of a
  bracketed host (\<open>urllib.parse._check_bracketed_host\<close>, which gives the message of
  the \<open>ValueError\<close> it raises).
\<close>

record unicode_db =
  nfkc :: "pystr \<Rightarrow> pystr"
  isalnum_high :: "nat \<Rightarrow> bool"
  bracketed_host_error :: "pystr \<Rightarrow> pystr option"

text \<open>The tables on ASCII text: nothing to normalise, no letter beyond 127.\<close>

definition ascii_db :: unicode_db where
  "ascii_db = \<lparr>nfkc = (\<lambda>s. s), isalnum_high = (\<lambda>c. False),
     bracketed_host_error = (\<lambda>h. Some (py ''invalid bracketed host''))\<rparr>"

datatype py_exception = ValueError pystr | TimeoutError | OtherException pystr

fun exc_str :: "py_exception \<Rightarrow> pystr" where
  "exc_str (ValueError m) = m"
| "exc_str TimeoutError = []"
| "exc_str (OtherException m) = m"

subsection \<open>Character classes\<close>

text \<open>\<open>\s\<close> of a \<open>str\<close> pattern: the code points for which \<open>str.isspace\<close> holds.\<close>

definition isspace :: "nat \<Rightarrow> bool" where
  "isspace c \<longleftrightarrow> (9 \<le> c \<and> c \<le> 13) \<or> (28 \<le> c \<and> c \<le> 32) \<or> c = 133 \<or> c = 160
     \<or> c = 5760 \<or> (8192 \<le> c \<and> c \<le> 8202) \<or> c = 8232 \<or> c = 8233 \<or> c = 8239
     \<or> c = 8287 \<or> c = 12288"

text \<open>The class \<open>[^\s<>"{}|\\^`\[\]]\<close> of the URL pattern.\<close>

definition url_char :: "nat \<Rightarrow> bool" where
  "url_char c \<longleftrightarrow> \<not> isspace c \<and> c \<noteq> 60 \<and> c \<noteq> 62 \<and> c \<noteq> 34 \<and> c \<noteq> 123 \<and> c \<noteq> 125
     \<and> c \<noteq> 124 \<and> c \<noteq> 92 \<and> c \<noteq> 94 \<and> c \<noteq> 96 \<and> c \<noteq> 91 \<and> c \<noteq> 93"

definition ascii_lower :: "nat \<Rightarrow> bool" where
  "ascii_lower c \<longleftrightarrow> 97 \<le> c \<and> c \<le> 122"

definition ascii_upper :: "nat \<Rightarrow> bool" where
  "ascii_upper c \<longleftrightarrow> 65 \<le> c \<and> c \<le> 90"

definition ascii_digit :: "nat \<Rightarrow> bool" where
  "ascii_digit c \<longleftrightarrow> 48 \<le> c \<and> c \<le> 57"

definition to_lower :: "nat \<Rightarrow> nat" where
  "to_lower c = (if ascii_upper c then c + 32 else c)"

text \<open>
  A literal of the pattern under \<open>re.IGNORECASE\<close>: a letter matches itself and its
  upper case, and \<open>s\<close> also matches the long s (U+017F, 383), its case-folding
  equivalent; any other literal matches itself only.
\<close>

definition matches_ci :: "nat \<Rightarrow> nat \<Rightarrow> bool" where
  "matches_ci l c \<longleftrightarrow> c = l \<or> (ascii_lower l \<and> (c + 32 = l \<or> (l = 115 \<and> c = 383)))"

subsection \<open>\<open>re.findall(r'https?://[^\s<>"{}|\\^`\[\]]+', text, re.IGNORECASE)\<close>\<close>

text \<open>\<open>lit_ci ls t\<close> matches the literals \<open>ls\<close> at the start of \<open>t\<close> and gives the rest.\<close>

fun lit_ci :: "pystr \<Rightarrow> pystr \<Rightarrow> pystr option" where
  "lit_ci [] t = Some t"
| "lit_ci (l # ls) [] = None"
| "lit_ci (l # ls) (c # cs) = (if matches_ci l c then lit_ci ls cs else None)"

text \<open>\<open>://\<close> and one or more characters of the class, as many as there are (greedy).\<close>

definition pattern_tail :: "pystr \<Rightarrow> pystr option" where
  "pattern_tail t =
     (case lit_ci (py ''://'') t of
        None \<Rightarrow> None
      | Some r \<Rightarrow> (let body = takeWhile url_char r
                  in if body = [] then None else Some (py ''://'' @ body)))"

text \<open>
  The match of the pattern at the start of \<open>t\<close>, if any: \<open>http\<close>, then the optional
  \<open>s\<close> tried first (greedy) and given up when the rest does not match.
\<close>

definition match_here :: "pystr \<Rightarrow> pystr option" where
  "match_here t =
     (case lit_ci (py ''http'') t of
        None \<Rightarrow> None
      | Some r \<Rightarrow>
          (case (case r of [] \<Rightarrow> None
                 | c # cs \<Rightarrow> if matches_ci 115 c then pattern_tail cs else None) of
             Some m \<Rightarrow> Some (take 5 t @ m)
           | None \<Rightarrow> (case pattern_tail r of
                        Some m \<Rightarrow> Some (take 4 t @ m)
                      | None \<Rightarrow> None)))"

lemma pattern_tail_nonempty: "pattern_tail t = Some m \<Longrightarrow> m \<noteq> []"
  by (auto simp: pattern_tail_def Let_def py_def split: option.splits if_splits)

lemma match_here_nonempty: "match_here t = Some m \<Longrightarrow> m \<noteq> []"
  by (auto simp: match_here_def split: option.splits list.splits if_splits
      dest: pattern_tail_nonempty)

text \<open>
  \<open>findall\<close>: the leftmost match, then on from its end; where nothing matches, on from
  the next character.
\<close>

function findall :: "pystr \<Rightarrow> pystr list" where
  "findall [] = []"
| "findall (c # cs) =
     (case match_here (c # cs) of
        None \<Rightarrow> findall cs
      | Some m \<Rightarrow> m # findall (drop (length m) (c # cs)))"
  by pat_completeness auto
termination
  by (relation "measure length") (auto dest: match_here_nonempty)

subsection \<open>\<open>urllib.parse.urlparse\<close>: the scheme and the netloc\<close>

definition scheme_char :: "nat \<Rightarrow> bool" where
  "scheme_char c \<longleftrightarrow> ascii_lower c \<or> ascii_upper c \<or> ascii_digit c \<or> c = 43 \<or> c = 45 \<or> c = 46"

text \<open>\<open>_checknetloc\<close>: True when it returns, False when it raises \<open>ValueError\<close>.\<close>

definition checknetloc :: "unicode_db \<Rightarrow> pystr \<Rightarrow> bool" where
  "checknetloc U netloc \<longleftrightarrow>
     netloc = [] \<or> (\<forall>c \<in> set netloc. c < 128) \<or>
     (let n = filter (\<lambda>c. c \<noteq> 64 \<and> c \<noteq> 58 \<and> c \<noteq> 35 \<and> c \<noteq> 63) netloc;
          netloc2 = nfkc U n
      in n = netloc2 \<or> (\<forall>c \<in> {47, 63, 35, 64, 58}. c \<notin> set netloc2))"

text \<open>
  The scheme of \<open>urlsplit\<close>: the text before the first colon, lowered, when that text
  is not empty, starts with an ASCII letter and is made of scheme characters; the
  result is the scheme and the rest of the URL (the whole URL when there is no scheme).
\<close>

definition split_scheme :: "pystr \<Rightarrow> pystr \<times> pystr" where
  "split_scheme url =
     (let i = length (takeWhile (\<lambda>c. c \<noteq> 58) url)
      in if i < length url \<and> 0 < i \<and> (ascii_lower (hd url) \<or> ascii_upper (hd url))
            \<and> (\<forall>c \<in> set (take i url). scheme_char c)
         then (map to_lower (take i url), drop (i + 1) url)
         else ([], url))"

text \<open>The checks on a netloc: the brackets of an IPv6 host, then \<open>_checknetloc\<close>.\<close>

definition bracketed_host :: "pystr \<Rightarrow> pystr" where
  "bracketed_host netloc = takeWhile (\<lambda>c. c \<noteq> 93) (tl (dropWhile (\<lambda>c. c \<noteq> 91) netloc))"

definition netloc_error :: "unicode_db \<Rightarrow> pystr \<Rightarrow> py_exception option" where
  "netloc_error U netloc =
     (if (91 \<in> set netloc \<and> 93 \<notin> set netloc) \<or> (93 \<in> set netloc \<and> 91 \<notin> set netloc)
      then Some (ValueError (py ''Invalid IPv6 URL''))
      else (case (if 91 \<in> set netloc \<and> 93 \<in> set netloc
                  then bracketed_host_error U (bracketed_host netloc) else None) of
              Some msg \<Rightarrow> Some (ValueError msg)
            | None \<Rightarrow>
                if \<not> checknetloc U netloc
                then Some (ValueError (py ''netloc '' @ [39] @ netloc @ [39] @
                             py '' contains invalid characters under NFKC normalization''))
                else None))"

text \<open>
  \<open>urlparse\<close> as far as the scheme and the netloc, which is all the source reads of the
  result: leading C0 controls and spaces are stripped, tab, CR and LF removed, the
  scheme split off, and the netloc is what follows \<open>//\<close> up to the first of \<open>/\<close>, \<open>?\<close>
  and \<open>#\<close>.
\<close>

definition urlparse :: "unicode_db \<Rightarrow> pystr \<Rightarrow> py_exception + (pystr \<times> pystr)" where
  "urlparse U url0 =
     (let url1 = dropWhile (\<lambda>c. c \<le> 32) url0;
          url2 = filter (\<lambda>c. c \<noteq> 9 \<and> c \<noteq> 13 \<and> c \<noteq> 10) url1;
          (scheme, url3) = split_scheme url2
      in if take 2 url3 = py ''//'' then
           (let netloc = takeWhile (\<lambda>c. c \<noteq> 47 \<and> c \<noteq> 63 \<and> c \<noteq> 35) (drop 2 url3)
            in case netloc_error U netloc of
                 Some e \<Rightarrow> Inl e
               | None \<Rightarrow> Inr (scheme, netloc))
         else Inr (scheme, []))"

section \<open>URL extraction\<close>

text \<open>
  A Python \<open>set\<close> of strings is a list without duplicates; \<open>set_add\<close> is \<open>urls.add\<close>.
  \<open>list(urls)\<close> enumerates the set in an order that depends on the hashes of the
  strings: the order is given by a rank that the environment chooses, so that every
  enumeration of the set arises from some rank.
\<close>

definition set_add :: "pystr \<Rightarrow> pystr list \<Rightarrow> pystr list" where
  "set_add u urls = (if u \<in> set urls then urls else urls @ [u])"

definition list_of_set :: "(pystr \<Rightarrow> nat) \<Rightarrow> pystr list \<Rightarrow> pystr list" where
  "list_of_set rank urls = sort_key rank urls"

text \<open>
  The loop of \<open>ScreenshotCLI.read_content\<close> over the matches: a match whose parse
  raises, or whose netloc is empty, adds nothing.
\<close>

fun cli_add_matches :: "unicode_db \<Rightarrow> pystr list \<Rightarrow> pystr list \<Rightarrow> pystr list" where
  "cli_add_matches U [] urls = urls"
| "cli_add_matches U (m # ms) urls =
     cli_add_matches U ms
       (case urlparse U m of
          Inl e \<Rightarrow> urls
        | Inr (scheme, netloc) \<Rightarrow>
            if netloc \<noteq> [] then set_add (scheme @ py ''://'' @ netloc) urls else urls)"

definition cli_extract :: "unicode_db \<Rightarrow> pystr \<Rightarrow> pystr list" where
  "cli_extract U text = cli_add_matches U (findall text) []"

text \<open>The same loop as the nested \<open>read_content\<close> of \<open>ScreenshotViewer.run_scan\<close> has it.\<close>

fun gui_add_matches :: "unicode_db \<Rightarrow> pystr list \<Rightarrow> pystr list \<Rightarrow> pystr list" where
  "gui_add_matches U [] urls = urls"
| "gui_add_matches U (m # ms) urls =
     gui_add_matches U ms
       (case urlparse U m of
          Inl e \<Rightarrow> urls
        | Inr (scheme, netloc) \<Rightarrow>
            if netloc \<noteq> [] then set_add (scheme @ py ''://'' @ netloc) urls else urls)"

definition gui_extract :: "unicode_db \<Rightarrow> pystr \<Rightarrow> pystr list" where
  "gui_extract U text = gui_add_matches U (findall text) []"


section \<open>The environment of a run, the state of an application\<close>

text \<open>
  What a run does not decide itself is given by the environment: the text of the
  input file (\<open>None\<close> when opening or reading it raises), the order in which
  \<open>list(urls)\<close> enumerates the set, the browser (each call gives \<open>None\<close> when it
  returns and the message of the exception when it raises), the second after the
  start of the pool at which the task of a URL is done, the clock for the history
  entry, the number of processors, and the value of the flag \<open>scan_active\<close> (written
  by the thread of the interface) at the moments the scan reads it: when the task of
  a URL starts, and at the head of the \<open>i\<close>-th round of the loop over the outcomes.
\<close>

record shot_request =
  shot_path :: pystr
  shot_type :: pystr
  shot_quality :: int
  shot_full_page :: bool

record env =
  file_text :: "pystr option"
  hash_rank :: "pystr \<Rightarrow> nat"
  pw_goto :: "pystr \<Rightarrow> int \<Rightarrow> pystr option"
  pw_screenshot :: "pystr \<Rightarrow> shot_request \<Rightarrow> pystr option"
  pw_close :: "pystr \<Rightarrow> pystr option"
  done_at :: "pystr \<Rightarrow> nat"
  now :: pystr
  cpu_count :: "nat option"
  active_at_start :: "pystr \<Rightarrow> bool"
  active_at_check :: "nat \<Rightarrow> bool"

text \<open>
  A JSON file on disk is missing, unreadable (\<open>json.load\<close> raises), or has a content.
  The writes of the source are taken to succeed; when one raises, the source prints
  the error and goes on.
\<close>

datatype 'a json_file = Missing | Unreadable | Content 'a

record history_entry =
  date :: pystr
  entry_input_file :: "pystr option"
  entry_output_dir :: pystr
  total_urls :: nat
  successful :: nat

text \<open>
  What the scan reports to its front end and what it does to the pool, in the order
  it happens: the notice that no URL was found, the creation of the pool with its
  number of workers, an update of the progress bar (count and message), a progress
  signal of the viewer (outcomes so far, total, successes), the signal of a new image,
  the two error messages, the cancellation of \<open>futures[i:]\<close>, the shutdown of the
  pool, and the end of the scan. The percentage that the progress signal of the
  viewer carries is computed in floating point and is left out, as are the other
  lines printed on the console.
\<close>

datatype event =
    NoUrlsFound
  | PoolStarted int
  | BarUpdate nat pystr
  | ScanProgress nat nat nat
  | NewImage pystr
  | ResultError pystr
  | ScanError pystr
  | FuturesCancelled "pystr list"
  | PoolShutdown
  | ScanFinished nat nat
  | ScanCompleted

text \<open>
  The fields that both applications have: the attributes of \<open>self\<close> that the scan
  reads or writes, the two files, and the local counter \<open>successful_captures\<close> of
  \<open>run_scan\<close> (the command line run has \<open>failed_captures\<close> as well). Three fields
  record what happened and are no variables of the source: the URLs handed to
  \<open>executor.submit\<close>, the triples that
  \<open>success, url, result = future.result(timeout=60)\<close> received, and the events.
  \<open>os.makedirs(self.output_dir, exist_ok=True)\<close> is taken to succeed, and the console
  messages of \<open>read_content\<close> are left out.
\<close>

record app =
  input_file :: "pystr option"
  output_dir :: pystr
  images :: "pystr list"
  url_mapping :: "pystr \<rightharpoonup> pystr"
  urls :: "pystr list"
  successful_captures :: nat
  mapping_file :: "(pystr \<rightharpoonup> pystr) json_file"
  history_file :: "history_entry list json_file"
  submitted :: "pystr list"
  received :: "(bool \<times> pystr \<times> pystr) list"
  events :: "event list"

record cli = app +
  threads :: int
  quality :: int
  timeout :: int
  failed_captures :: nat

record gui = app +
  scan_active :: bool

section \<open>The Result Store: mapping and history files\<close>

definition cli_load_url_mapping :: "cli \<Rightarrow> cli" where
  "cli_load_url_mapping c =
     (case mapping_file c of
        Content m \<Rightarrow> c\<lparr>url_mapping := m\<rparr>
      | Missing \<Rightarrow> c
      | Unreadable \<Rightarrow> c)"

definition gui_load_url_mapping :: "gui \<Rightarrow> gui" where
  "gui_load_url_mapping g =
     (case mapping_file g of
        Content m \<Rightarrow> g\<lparr>url_mapping := m\<rparr>
      | Missing \<Rightarrow> g
      | Unreadable \<Rightarrow> g\<lparr>url_mapping := Map.empty\<rparr>)"

definition save_url_mapping :: "'a app_scheme \<Rightarrow> 'a app_scheme" where
  "save_url_mapping s = s\<lparr>mapping_file := Content (url_mapping s)\<rparr>"

definition load_history :: "'a app_scheme \<Rightarrow> history_entry list" where
  "load_history s = (case history_file s of Content h \<Rightarrow> h | Missing \<Rightarrow> [] | Unreadable \<Rightarrow> [])"

text \<open>\<open>ScreenshotCLI.save_to_history\<close>: \<open>history.insert(0, entry)\<close>, then \<open>history[:20]\<close>.\<close>

definition cli_save_to_history :: "env \<Rightarrow> nat \<Rightarrow> nat \<Rightarrow> cli \<Rightarrow> cli" where
  "cli_save_to_history E n k c =
     (let history = load_history c;
          entry = \<lparr>date = now E, entry_input_file = input_file c,
                   entry_output_dir = output_dir c, total_urls = n, successful = k\<rparr>;
          history = entry # history;
          history = take 20 history
      in c\<lparr>history_file := Content history\<rparr>)"

text \<open>
  \<open>ScreenshotViewer.save_to_history\<close>: the same, with
  \<open>getattr(self, 'input_file', 'Unknown')\<close> for the input file.
\<close>

definition gui_save_to_history :: "env \<Rightarrow> nat \<Rightarrow> nat \<Rightarrow> gui \<Rightarrow> gui" where
  "gui_save_to_history E n k g =
     (let history = load_history g;
          entry = \<lparr>date = now E,
                   entry_input_file =
                     (case input_file g of None \<Rightarrow> Some (py ''Unknown'') | Some f \<Rightarrow> Some f),
                   entry_output_dir = output_dir g, total_urls = n, successful = k\<rparr>;
          history = entry # history;
          history = take 20 history
      in g\<lparr>history_file := Content history\<rparr>)"

section \<open>Reading the input\<close>

definition cli_read_content :: "unicode_db \<Rightarrow> env \<Rightarrow> cli \<Rightarrow> pystr list" where
  "cli_read_content U E c =
     (case input_file c of
        None \<Rightarrow> []
      | Some f \<Rightarrow>
          if f = [] then []
          else (case file_text E of
                  None \<Rightarrow> []
                | Some text \<Rightarrow> list_of_set (hash_rank E) (cli_extract U text)))"

definition gui_read_content :: "unicode_db \<Rightarrow> env \<Rightarrow> gui \<Rightarrow> pystr list" where
  "gui_read_content U E g =
     (case file_text E of
        None \<Rightarrow> []
      | Some text \<Rightarrow> list_of_set (hash_rank E) (gui_extract U text))"

section \<open>The capture of one URL\<close>

text \<open>\<open>\w\<close> of a \<open>str\<close> pattern: \<open>str.isalnum\<close> or the underscore.\<close>

definition is_word :: "unicode_db \<Rightarrow> nat \<Rightarrow> bool" where
  "is_word U c \<longleftrightarrow>
     (if c < 128 then ascii_lower c \<or> ascii_upper c \<or> ascii_digit c \<or> c = 95
      else isalnum_high U c)"

text \<open>\<open>re.sub(r'[^\w\-_\.]', '_', netloc)\<close>.\<close>

definition safe_name_of :: "unicode_db \<Rightarrow> pystr \<Rightarrow> pystr" where
  "safe_name_of U netloc =
     map (\<lambda>c. if is_word U c \<or> c = 45 \<or> c = 95 \<or> c = 46 then c else 95) netloc"

text \<open>\<open>os.path.join\<close> of two parts and \<open>os.path.basename\<close>, as \<open>posixpath\<close> has them.\<close>

definition path_join :: "pystr \<Rightarrow> pystr \<Rightarrow> pystr" where
  "path_join a b =
     (if b \<noteq> [] \<and> hd b = 47 then b
      else if a = [] \<or> last a = 47 then a @ b
      else a @ [47] @ b)"

definition basename :: "pystr \<Rightarrow> pystr" where
  "basename p = rev (takeWhile (\<lambda>c. c \<noteq> 47) (rev p))"

text \<open>
  \<open>ScreenshotCLI.capture_screenshot\<close>. \<open>pw_goto\<close> stands for everything from
  \<open>sync_playwright()\<close> to \<open>page.wait_for_timeout(1000)\<close>; every exception ends in the
  \<open>except\<close> clause, which returns \<open>(False, url, str(e))\<close>.
\<close>

definition cli_shot_request :: "unicode_db \<Rightarrow> cli \<Rightarrow> pystr \<Rightarrow> shot_request" where
  "cli_shot_request U c netloc =
     (let safe_name = safe_name_of U netloc;
          filepath = path_join (output_dir c) (safe_name @ py ''.jpg'')
      in \<lparr>shot_path = filepath, shot_type = py ''jpeg'', shot_quality = quality c,
          shot_full_page = False\<rparr>)"

definition cli_capture_screenshot ::
    "unicode_db \<Rightarrow> env \<Rightarrow> cli \<Rightarrow> pystr \<Rightarrow> bool \<times> pystr \<times> pystr" where
  "cli_capture_screenshot U E c url =
     (case pw_goto E url (timeout c) of
        Some msg \<Rightarrow> (False, url, msg)
      | None \<Rightarrow>
          (case urlparse U url of
             Inl e \<Rightarrow> (False, url, exc_str e)
           | Inr (scheme, netloc) \<Rightarrow>
               (let req = cli_shot_request U c netloc
                in case pw_screenshot E url req of
                     Some msg \<Rightarrow> (False, url, msg)
                   | None \<Rightarrow>
                       (case pw_close E url of
                          Some msg \<Rightarrow> (False, url, msg)
                        | None \<Rightarrow> (True, url, shot_path req)))))"

text \<open>
  The nested \<open>capture\<close> of \<open>ScreenshotViewer.run_scan\<close>: the flag is read first, the
  timeout is 15000, the quality 85, and the file is named \<open>.png\<close>.
\<close>

definition gui_shot_request :: "unicode_db \<Rightarrow> gui \<Rightarrow> pystr \<Rightarrow> shot_request" where
  "gui_shot_request U g netloc =
     (let safe_name = safe_name_of U netloc;
          filepath = path_join (output_dir g) (safe_name @ py ''.png'')
      in \<lparr>shot_path = filepath, shot_type = py ''jpeg'', shot_quality = 85,
          shot_full_page = False\<rparr>)"

definition gui_capture ::
    "unicode_db \<Rightarrow> env \<Rightarrow> gui \<Rightarrow> pystr \<Rightarrow> bool \<times> pystr \<times> pystr" where
  "gui_capture U E g url =
     (if \<not> active_at_start E url then (False, url, py ''Process stopped'')
      else
        (case pw_goto E url 15000 of
           Some msg \<Rightarrow> (False, url, msg)
         | None \<Rightarrow>
             (case urlparse U url of
                Inl e \<Rightarrow> (False, url, exc_str e)
              | Inr (scheme, netloc) \<Rightarrow>
                  (let req = gui_shot_request U g netloc
                   in case pw_screenshot E url req of
                        Some msg \<Rightarrow> (False, url, msg)
                      | None \<Rightarrow>
                          (case pw_close E url of
                             Some msg \<Rightarrow> (False, url, msg)
                           | None \<Rightarrow> (True, url, shot_path req))))))"

section \<open>The worker pool\<close>

text \<open>
  A future of \<open>executor.submit\<close>: the URL of its task, the second at which the task is
  done, and what the task returned or raised. \<open>as_completed\<close> hands the futures over as
  they are done, each one once: in the order of their completion times. A future
  that \<open>as_completed\<close> yields at second \<open>clock\<close> is done by then.
  \<open>future.result(timeout)\<close> called at second \<open>clock\<close> gives the result of a future that
  is done within \<open>timeout\<close> seconds from then and raises \<open>TimeoutError\<close> otherwise.
\<close>

record future =
  fut_url :: pystr
  fut_done :: nat
  fut_result :: "py_exception + (bool \<times> pystr \<times> pystr)"

definition as_completed :: "future list \<Rightarrow> future list" where
  "as_completed futures = sort_key fut_done futures"

definition future_result ::
    "future \<Rightarrow> nat \<Rightarrow> nat \<Rightarrow> py_exception + (bool \<times> pystr \<times> pystr)" where
  "future_result f clock t =
     (if fut_done f \<le> clock + t then fut_result f else Inl TimeoutError)"

definition short :: "pystr \<Rightarrow> pystr" where
  "short s = (if length s > 20 then take 20 s @ py ''...'' else s)"

subsection \<open>\<open>ScreenshotCLI.run_scan\<close>\<close>

definition cli_submit :: "unicode_db \<Rightarrow> env \<Rightarrow> cli \<Rightarrow> pystr \<Rightarrow> future" where
  "cli_submit U E c url =
     \<lparr>fut_url = url, fut_done = done_at E url,
      fut_result = Inr (cli_capture_screenshot U E c url)\<rparr>"

text \<open>The body of the loop over the outcomes, round \<open>i\<close>.\<close>

definition cli_process ::
    "nat \<Rightarrow> py_exception + (bool \<times> pystr \<times> pystr) \<Rightarrow> cli \<Rightarrow> cli" where
  "cli_process i r c =
     (case r of
        Inr (success, url, result) \<Rightarrow>
          (if success
           then c\<lparr>images := images c @ [result],
                  url_mapping := (url_mapping c)(basename result \<mapsto> url),
                  successful_captures := successful_captures c + 1,
                  received := received c @ [(success, url, result)],
                  events := events c @ [BarUpdate (i + 1) (py ''OK '' @ basename result)]\<rparr>
           else c\<lparr>failed_captures := failed_captures c + 1,
                  received := received c @ [(success, url, result)],
                  events := events c @ [BarUpdate (i + 1) (py ''ERR Failed: '' @ short url)]\<rparr>)
      | Inl e \<Rightarrow>
          c\<lparr>failed_captures := failed_captures c + 1,
            events := events c @ [BarUpdate (i + 1) (py ''ERR Error: '' @ short (exc_str e))]\<rparr>)"

text \<open>
  \<open>for i, future in enumerate(as_completed(futures))\<close>: the loop waits until the next
  future is done, so the clock is at least its completion time when the body runs.
\<close>

fun cli_loop :: "nat \<Rightarrow> nat \<Rightarrow> future list \<Rightarrow> cli \<Rightarrow> cli" where
  "cli_loop clock i [] c = c"
| "cli_loop clock i (f # fs) c =
     (let clock = max clock (fut_done f)
      in cli_loop clock (i + 1) fs (cli_process i (future_result f clock 60) c))"

definition cli_run_scan :: "unicode_db \<Rightarrow> env \<Rightarrow> cli \<Rightarrow> cli" where
  "cli_run_scan U E c0 =
     (let c = c0\<lparr>urls := cli_read_content U E c0\<rparr>;
          total' = length (urls c)
      in if total' = 0 then c\<lparr>events := events c @ [NoUrlsFound]\<rparr>
         else
           (let c = c\<lparr>successful_captures := 0, failed_captures := 0\<rparr>;
                c = (if threads c \<le> 0
                     then c\<lparr>events := events c @
                            [ScanError (py ''max_workers must be greater than 0'')]\<rparr>
                     else
                       (let c = c\<lparr>events := events c @ [PoolStarted (threads c)]\<rparr>;
                            futures = map (cli_submit U E c) (urls c);
                            c = c\<lparr>submitted := submitted c @ urls c\<rparr>
                        in cli_loop 0 0 (as_completed futures) c));
                c = save_url_mapping c;
                c = cli_save_to_history E (length (urls c)) (successful_captures c) c
            in c\<lparr>events := events c @ [ScanFinished (successful_captures c) total']\<rparr>))"

text \<open>
  \<open>ScreenshotCLI.__init__\<close> on the command line options and the files found, and
  \<open>main\<close> when only the options of a scan are given.
\<close>

definition cli_init :: "cli \<Rightarrow> cli" where
  "cli_init c = cli_load_url_mapping (c\<lparr>images := [], url_mapping := Map.empty, urls := []\<rparr>)"

definition cli_main :: "unicode_db \<Rightarrow> env \<Rightarrow> cli \<Rightarrow> cli" where
  "cli_main U E c =
     (let c = cli_init c
      in case input_file c of
           None \<Rightarrow> c
         | Some f \<Rightarrow> if f = [] then c else cli_run_scan U E c)"

subsection \<open>\<open>ScreenshotViewer.run_scan\<close>\<close>

definition gui_submit :: "unicode_db \<Rightarrow> env \<Rightarrow> gui \<Rightarrow> pystr \<Rightarrow> future" where
  "gui_submit U E g url =
     \<lparr>fut_url = url, fut_done = done_at E url,
      fut_result = Inr (gui_capture U E g url)\<rparr>"

definition gui_process ::
    "nat \<Rightarrow> nat \<Rightarrow> py_exception + (bool \<times> pystr \<times> pystr) \<Rightarrow> gui \<Rightarrow> gui" where
  "gui_process total' i r g =
     (case r of
        Inr (success, url, result) \<Rightarrow>
          (let g = g\<lparr>received := received g @ [(success, url, result)]\<rparr>;
               g = (if success
                    then g\<lparr>images := images g @ [result],
                           url_mapping := (url_mapping g)(basename result \<mapsto> url),
                           successful_captures := successful_captures g + 1,
                           events := events g @ [NewImage result]\<rparr>
                    else g)
           in g\<lparr>events := events g @ [ScanProgress (i + 1) total' (successful_captures g)]\<rparr>)
      | Inl e \<Rightarrow>
          g\<lparr>events := events g @
               [ResultError (exc_str e), ScanProgress (i + 1) total' (successful_captures g)]\<rparr>)"

text \<open>
  The loop reads the flag at the head of every round; when it is off, \<open>cancel\<close> is
  called on \<open>futures[i:]\<close> and the loop is left.
\<close>

fun gui_loop ::
    "env \<Rightarrow> future list \<Rightarrow> nat \<Rightarrow> nat \<Rightarrow> nat \<Rightarrow> future list \<Rightarrow> gui \<Rightarrow> gui" where
  "gui_loop E futures total' clock i [] g = g"
| "gui_loop E futures total' clock i (f # fs) g =
     (let clock = max clock (fut_done f)
      in if \<not> active_at_check E i
         then g\<lparr>events := events g @ [FuturesCancelled (map fut_url (drop i futures))]\<rparr>
         else gui_loop E futures total' clock (i + 1) fs
                (gui_process total' i (future_result f clock 60) g))"

definition gui_run_scan :: "unicode_db \<Rightarrow> env \<Rightarrow> gui \<Rightarrow> gui" where
  "gui_run_scan U E g0 =
     (let g = g0\<lparr>urls := gui_read_content U E g0\<rparr>;
          total' = length (urls g)
      in if total' = 0 then g\<lparr>events := events g @ [NoUrlsFound]\<rparr>
         else
           (let num_threads = min 4 (case cpu_count E of
                                       None \<Rightarrow> 1
                                     | Some n \<Rightarrow> if n = 0 then 1 else int n);
                g = g\<lparr>successful_captures := 0,
                       events := events g @ [PoolStarted num_threads]\<rparr>;
                futures = map (gui_submit U E g) (urls g);
                g = g\<lparr>submitted := submitted g @ urls g\<rparr>;
                g = gui_loop E futures total' 0 0 (as_completed futures) g;
                g = g\<lparr>events := events g @ [PoolShutdown]\<rparr>;
                g = save_url_mapping g;
                g = gui_save_to_history E (length (urls g)) (successful_captures g) g
            in g\<lparr>scan_active := False, events := events g @ [ScanCompleted]\<rparr>))"

text \<open>
  The part of \<open>ScreenshotViewer.__init__\<close> that sets up the Result Store: the empty
  list and mapping, \<open>load_url_mapping\<close>, and \<open>load_captures\<close> (called by \<open>setup_ui\<close>),
  which lists the image files found in the output directory.
\<close>

definition gui_init :: "pystr list \<Rightarrow> gui \<Rightarrow> gui" where
  "gui_init captures g =
     (gui_load_url_mapping (g\<lparr>images := [], url_mapping := Map.empty\<rparr>))\<lparr>images := captures\<rparr>"

section \<open>A concrete run\<close>

text \<open>
  The text of scenario A, and an environment for it: the set is enumerated with the
  shorter URL first, the browser fails on the screenshot of \<open>https://b.org\<close> and
  works for \<open>http://a.com\<close>, whose task is done after 70 seconds, nobody stops the
  scan. In \<open>cancel_env\<close> the scan is stopped after the first outcome. \<open>slow_cli\<close> is
  the command line application started with \<open>--timeout 120000\<close>, which allows a
  navigation of 70 seconds.
\<close>

definition scenario_text :: pystr where
  "scenario_text = py ''visit http://a.com/x and also http://a.com/y plus https://b.org''"

definition demo_env :: env where
  "demo_env =
     \<lparr>file_text = Some scenario_text,
      hash_rank = length,
      pw_goto = (\<lambda>url t. None),
      pw_screenshot = (\<lambda>url r. if url = py ''https://b.org'' then Some (py ''timeout'') else None),
      pw_close = (\<lambda>url. None),
      done_at = (\<lambda>url. if url = py ''http://a.com'' then 70 else 5),
      now = py ''2024-05-01 12:00:00'',
      cpu_count = Some 8,
      active_at_start = (\<lambda>url. True),
      active_at_check = (\<lambda>i. True)\<rparr>"

definition cancel_env :: env where
  "cancel_env = demo_env\<lparr>active_at_check := (\<lambda>i. i < 1)\<rparr>"

definition empty_env :: env where
  "empty_env = demo_env\<lparr>file_text := Some []\<rparr>"

definition demo_cli :: cli where
  "demo_cli =
     \<lparr>input_file = Some (py ''urls.txt''), output_dir = py ''screenshots'',
      images = [], url_mapping = [py ''old.jpg'' \<mapsto> py ''http://old.example''], urls = [],
      successful_captures = 0,
      mapping_file = Content [py ''old.jpg'' \<mapsto> py ''http://old.example''],
      history_file = Missing, submitted = [], received = [], events = [],
      threads = 4, quality = 85, timeout = 15000, failed_captures = 0\<rparr>"

definition slow_cli :: cli where
  "slow_cli = demo_cli\<lparr>timeout := 120000\<rparr>"

definition demo_gui :: gui where
  "demo_gui =
     \<lparr>input_file = Some (py ''urls.txt''), output_dir = py ''screenshots'',
      images = [], url_mapping = [py ''old.png'' \<mapsto> py ''http://old.example''], urls = [],
      successful_captures = 0,
      mapping_file = Content [py ''old.png'' \<mapsto> py ''http://old.example''],
      history_file = Missing, submitted = [], received = [], events = [],
      scan_active = True\<rparr>"

section \<open>Notions used in the statements\<close>



text \<open>
  \<open>record(outcome)\<close> of the specification's Result Store, on the pair of the image
  list and the URL mapping: a Success appends its file path and maps its file name to
  its URL, a Failure changes nothing.
\<close>

definition store_outcome ::
    "bool \<times> pystr \<times> pystr \<Rightarrow> pystr list \<times> (pystr \<rightharpoonup> pystr)
       \<Rightarrow> pystr list \<times> (pystr \<rightharpoonup> pystr)" where
  "store_outcome out st =
     (case out of (success, url, result) \<Rightarrow>
        if success then (fst st @ [result], (snd st)(basename result \<mapsto> url)) else st)"

text \<open>The outcomes of the tasks of a run, in the order of their completion.\<close>

definition cli_outcomes :: "unicode_db \<Rightarrow> env \<Rightarrow> cli \<Rightarrow> (bool \<times> pystr \<times> pystr) list" where
  "cli_outcomes U E c =
     map (cli_capture_screenshot U E c) (sort_key (done_at E) (cli_read_content U E c))"

definition gui_outcomes :: "unicode_db \<Rightarrow> env \<Rightarrow> gui \<Rightarrow> (bool \<times> pystr \<times> pystr) list" where
  "gui_outcomes U E g =
     map (gui_capture U E g) (sort_key (done_at E) (gui_read_content U E g))"

text \<open>
  The number of rounds, out of \<open>n\<close> from round \<open>i\<close> on, that find the flag
  \<open>scan_active\<close> on before the first round that finds it off.
\<close>

definition rounds :: "env \<Rightarrow> nat \<Rightarrow> nat \<Rightarrow> nat" where
  "rounds E i n = length (takeWhile (active_at_check E) [i..<i + n])"

text \<open>
  The file names that the Success outcomes of a list of outcomes write into the URL
  mapping, and the outcomes that a run received: those that the state after the run
  has beyond the state before it.
\<close>

definition written_keys :: "(bool \<times> pystr \<times> pystr) list \<Rightarrow> pystr set" where
  "written_keys outs = set (map (\<lambda>out. basename (snd (snd out))) (filter fst outs))"

definition new_outcomes :: "'a app_scheme \<Rightarrow> 'a app_scheme \<Rightarrow> (bool \<times> pystr \<times> pystr) list" where
  "new_outcomes s s' = drop (length (received s)) (received s')"

text \<open>
  The sanitisation as the specification words it: every non-word character of the host
  becomes an underscore.
\<close>

definition spec_sanitize :: "unicode_db \<Rightarrow> pystr \<Rightarrow> pystr" where
  "spec_sanitize U host = map (\<lambda>c. if is_word U c then c else 95) host"

section \<open>Properties of the library calls\<close>















lemma gui_add_matches_eq: "gui_add_matches U ms acc = cli_add_matches U ms acc"
  by (induction ms arbitrary: acc) auto

lemma gui_extract_eq: "gui_extract U text = cli_extract U text"
  by (simp add: gui_extract_def cli_extract_def gui_add_matches_eq)




section \<open>Properties of the pool and of a run\<close>


lemma future_result_done: "future_result f (max clock (fut_done f)) t = fut_result f"
  by (simp add: future_result_def max_def)

lemma insort_key_map: "insort_key k (f x) (map f ys) = map f (insort_key (\<lambda>a. k (f a)) x ys)"
  by (induction ys) auto

lemma sort_key_map: "sort_key k (map f xs) = map f (sort_key (\<lambda>a. k (f a)) xs)"
  by (induction xs) (auto simp: insort_key_map)

lemma as_completed_cli_submit:
  "as_completed (map (cli_submit U E c) us) = map (cli_submit U E c) (sort_key (done_at E) us)"
proof -
  have "(\<lambda>a. fut_done (cli_submit U E c a)) = done_at E"
    by (auto simp: cli_submit_def)
  then show ?thesis
    by (simp add: as_completed_def sort_key_map)
qed

lemma cli_capture_cong:
  "timeout c' = timeout c \<Longrightarrow> output_dir c' = output_dir c \<Longrightarrow> quality c' = quality c \<Longrightarrow>
   cli_capture_screenshot U E c' = cli_capture_screenshot U E c"
proof -
  assume a: "timeout c' = timeout c" "output_dir c' = output_dir c" "quality c' = quality c"
  then have "cli_shot_request U c' = cli_shot_request U c"
    by (intro ext) (simp add: cli_shot_request_def)
  then show ?thesis
    using a by (intro ext) (simp add: cli_capture_screenshot_def split: option.splits sum.splits prod.splits)
qed

lemma cli_process_Inr:
  "received (cli_process i (Inr out) c) = received c @ [out]"
  "(images (cli_process i (Inr out) c), url_mapping (cli_process i (Inr out) c))
     = store_outcome out (images c, url_mapping c)"
  "successful_captures (cli_process i (Inr out) c) = successful_captures c + (if fst out then 1 else 0)"
  "failed_captures (cli_process i (Inr out) c) = failed_captures c + (if fst out then 0 else 1)"
  by (auto simp: cli_process_def store_outcome_def split: prod.splits)

lemma cli_loop_submitted:
  "received (cli_loop clock i (map (cli_submit U E c0) us) c)
     = received c @ map (cli_capture_screenshot U E c0) us
   \<and> (images (cli_loop clock i (map (cli_submit U E c0) us) c),
       url_mapping (cli_loop clock i (map (cli_submit U E c0) us) c))
     = fold store_outcome (map (cli_capture_screenshot U E c0) us) (images c, url_mapping c)
   \<and> successful_captures (cli_loop clock i (map (cli_submit U E c0) us) c)
     = successful_captures c + length (filter fst (map (cli_capture_screenshot U E c0) us))
   \<and> failed_captures (cli_loop clock i (map (cli_submit U E c0) us) c)
     = failed_captures c + length (filter (\<lambda>out. \<not> fst out) (map (cli_capture_screenshot U E c0) us))"
proof (induction us arbitrary: clock i c)
  case Nil
  then show ?case by simp
next
  case (Cons u us)
  have fr: "future_result (cli_submit U E c0 u) (max clock (fut_done (cli_submit U E c0 u))) 60
      = Inr (cli_capture_screenshot U E c0 u)"
    by (simp add: future_result_done) (simp add: cli_submit_def)
  show ?case
    using Cons.IH[of "max clock (fut_done (cli_submit U E c0 u))" "i + 1"
        "cli_process i (Inr (cli_capture_screenshot U E c0 u)) c"]
    by (simp add: Let_def fr cli_process_Inr del: max.absorb1 max.absorb2 max.absorb3 max.absorb4)
    
qed


lemma rounds_0: "rounds E i 0 = 0"
  by (simp add: rounds_def)

lemma rounds_Suc:
  "rounds E i (Suc n) = (if active_at_check E i then Suc (rounds E (Suc i) n) else 0)"
proof -
  have "[i..<i + Suc n] = i # [Suc i..<Suc i + n]"
    by (simp add: upt_conv_Cons del: upt_Suc)
  then show ?thesis
    by (simp add: rounds_def del: upt_Suc)
qed

lemma rounds_exact:
  "K \<le> n \<Longrightarrow> (\<forall>j < K. active_at_check E (i + j)) \<Longrightarrow> (K < n \<longrightarrow> \<not> active_at_check E (i + K))
     \<Longrightarrow> rounds E i n = K"
proof (induction n arbitrary: i K)
  case 0
  then show ?case by (simp add: rounds_0)
next
  case (Suc n)
  show ?case
  proof (cases K)
    case 0
    with Suc.prems show ?thesis by (simp add: rounds_Suc)
  next
    case (Suc K')
    have a: "active_at_check E i" using Suc.prems(2) Suc by (metis add.right_neutral zero_less_Suc)
    have "rounds E (Suc i) n = K'"
    proof (rule Suc.IH)
      show "K' \<le> n" using Suc.prems(1) Suc by simp
      show "\<forall>j<K'. active_at_check E (Suc i + j)"
        using Suc.prems(2) Suc by (metis Suc_less_eq add_Suc_shift)
      show "K' < n \<longrightarrow> \<not> active_at_check E (Suc i + K')"
        using Suc.prems(3) Suc by simp
    qed
    with a Suc show ?thesis by (simp add: rounds_Suc)
  qed
qed

lemma as_completed_gui_submit:
  "as_completed (map (gui_submit U E g) us) = map (gui_submit U E g) (sort_key (done_at E) us)"
proof -
  have "(\<lambda>a. fut_done (gui_submit U E g a)) = done_at E"
    by (auto simp: gui_submit_def)
  then show ?thesis
    by (simp add: as_completed_def sort_key_map)
qed

lemma gui_capture_cong:
  "output_dir g' = output_dir g \<Longrightarrow> gui_capture U E g' = gui_capture U E g"
proof -
  assume a: "output_dir g' = output_dir g"
  then have "gui_shot_request U g' = gui_shot_request U g"
    by (intro ext) (simp add: gui_shot_request_def)
  then show ?thesis
    by (intro ext) (simp add: gui_capture_def split: option.splits sum.splits prod.splits)
qed

lemma gui_process_Inr:
  "received (gui_process t i (Inr out) g) = received g @ [out]"
  "(images (gui_process t i (Inr out) g), url_mapping (gui_process t i (Inr out) g))
     = store_outcome out (images g, url_mapping g)"
  "successful_captures (gui_process t i (Inr out) g) = successful_captures g + (if fst out then 1 else 0)"
  by (auto simp: gui_process_def store_outcome_def Let_def split: prod.splits)

lemma gui_loop_submitted:
  "received (gui_loop E futs t clock i (map (gui_submit U E g0) us) g)
     = received g @ take (rounds E i (length us)) (map (gui_capture U E g0) us)
   \<and> (images (gui_loop E futs t clock i (map (gui_submit U E g0) us) g),
       url_mapping (gui_loop E futs t clock i (map (gui_submit U E g0) us) g))
     = fold store_outcome (take (rounds E i (length us)) (map (gui_capture U E g0) us))
         (images g, url_mapping g)
   \<and> successful_captures (gui_loop E futs t clock i (map (gui_submit U E g0) us) g)
     = successful_captures g
       + length (filter fst (take (rounds E i (length us)) (map (gui_capture U E g0) us)))"
proof (induction us arbitrary: clock i g)
  case Nil
  then show ?case by simp
next
  case (Cons u us)
  have fr: "future_result (gui_submit U E g0 u) (max clock (fut_done (gui_submit U E g0 u))) 60
      = Inr (gui_capture U E g0 u)"
    by (simp add: future_result_done) (simp add: gui_submit_def)
  show ?case
  proof (cases "active_at_check E i")
    case True
    then show ?thesis
      using Cons.IH[of "max clock (fut_done (gui_submit U E g0 u))" "i + 1"
        "gui_process t i (Inr (gui_capture U E g0 u)) g"]
      by (simp add: Let_def fr gui_process_Inr rounds_Suc
          del: max.absorb1 max.absorb2 max.absorb3 max.absorb4)
  next
    case False
    then show ?thesis
      by (simp add: Let_def rounds_Suc)
  qed
qed


lemma cli_process_frame:
  "history_file (cli_process i r c) = history_file c"
  "mapping_file (cli_process i r c) = mapping_file c"
  "input_file (cli_process i r c) = input_file c"
  "output_dir (cli_process i r c) = output_dir c"
  "urls (cli_process i r c) = urls c"
  "submitted (cli_process i r c) = submitted c"
  by (auto simp: cli_process_def split: sum.splits prod.splits)

lemma cli_loop_frame:
  "history_file (cli_loop clock i fs c) = history_file c"
  "mapping_file (cli_loop clock i fs c) = mapping_file c"
  "input_file (cli_loop clock i fs c) = input_file c"
  "output_dir (cli_loop clock i fs c) = output_dir c"
  "urls (cli_loop clock i fs c) = urls c"
  "submitted (cli_loop clock i fs c) = submitted c"
  by (induction clock i fs c rule: cli_loop.induct; simp add: Let_def cli_process_frame)+

lemma gui_process_frame:
  "history_file (gui_process t i r g) = history_file g"
  "mapping_file (gui_process t i r g) = mapping_file g"
  "input_file (gui_process t i r g) = input_file g"
  "output_dir (gui_process t i r g) = output_dir g"
  "urls (gui_process t i r g) = urls g"
  "submitted (gui_process t i r g) = submitted g"
  by (auto simp: gui_process_def Let_def split: sum.splits prod.splits)

lemma gui_loop_frame:
  "history_file (gui_loop E futs t clock i fs g) = history_file g"
  "mapping_file (gui_loop E futs t clock i fs g) = mapping_file g"
  "input_file (gui_loop E futs t clock i fs g) = input_file g"
  "output_dir (gui_loop E futs t clock i fs g) = output_dir g"
  "urls (gui_loop E futs t clock i fs g) = urls g"
  "submitted (gui_loop E futs t clock i fs g) = submitted g"
  by (induction E futs t clock i fs g rule: gui_loop.induct; simp add: Let_def gui_process_frame)+

lemma cli_submit_frame:
  "cli_submit U E (c\<lparr>urls := a\<rparr>) = cli_submit U E c"
  "cli_submit U E (c\<lparr>successful_captures := b\<rparr>) = cli_submit U E c"
  "cli_submit U E (c\<lparr>failed_captures := d\<rparr>) = cli_submit U E c"
  "cli_submit U E (c\<lparr>events := e\<rparr>) = cli_submit U E c"
  using cli_capture_cong[of "c\<lparr>urls := a\<rparr>" c U E]
    cli_capture_cong[of "c\<lparr>successful_captures := b\<rparr>" c U E]
    cli_capture_cong[of "c\<lparr>failed_captures := d\<rparr>" c U E]
    cli_capture_cong[of "c\<lparr>events := e\<rparr>" c U E]
  by (simp_all add: cli_submit_def fun_eq_iff)

lemma gui_submit_frame:
  "gui_submit U E (g\<lparr>urls := a\<rparr>) = gui_submit U E g"
  "gui_submit U E (g\<lparr>successful_captures := b\<rparr>) = gui_submit U E g"
  "gui_submit U E (g\<lparr>events := e\<rparr>) = gui_submit U E g"
  using gui_capture_cong[of "g\<lparr>urls := a\<rparr>" g U E]
    gui_capture_cong[of "g\<lparr>successful_captures := b\<rparr>" g U E]
    gui_capture_cong[of "g\<lparr>events := e\<rparr>" g U E]
  by (simp_all add: gui_submit_def fun_eq_iff)

lemma gui_capture_frame:
  "gui_capture U E (g\<lparr>urls := a\<rparr>) = gui_capture U E g"
  "gui_capture U E (g\<lparr>successful_captures := b\<rparr>) = gui_capture U E g"
  "gui_capture U E (g\<lparr>events := e\<rparr>) = gui_capture U E g"
  by (rule gui_capture_cong, simp)+

lemma cli_capture_frame:
  "cli_capture_screenshot U E (c\<lparr>urls := a\<rparr>) = cli_capture_screenshot U E c"
  "cli_capture_screenshot U E (c\<lparr>successful_captures := b\<rparr>) = cli_capture_screenshot U E c"
  "cli_capture_screenshot U E (c\<lparr>failed_captures := d\<rparr>) = cli_capture_screenshot U E c"
  "cli_capture_screenshot U E (c\<lparr>events := e\<rparr>) = cli_capture_screenshot U E c"
  by (rule cli_capture_cong, simp, simp, simp)+

lemmas cli_loop_received = cli_loop_submitted[THEN conjunct1]
lemmas cli_loop_store = cli_loop_submitted[THEN conjunct2, THEN conjunct1]
lemmas cli_loop_successful = cli_loop_submitted[THEN conjunct2, THEN conjunct2, THEN conjunct1]
lemmas cli_loop_failed = cli_loop_submitted[THEN conjunct2, THEN conjunct2, THEN conjunct2]

lemma fst_snd_eq: "(a, b) = p \<Longrightarrow> a = fst p \<and> b = snd p"
  by auto

lemma cli_run_scan_normal:
  assumes "cli_read_content U E c \<noteq> []" "0 < threads c"
  shows "received (cli_run_scan U E c) = received c @ cli_outcomes U E c"
    and "images (cli_run_scan U E c)
           = fst (fold store_outcome (cli_outcomes U E c) (images c, url_mapping c))"
    and "url_mapping (cli_run_scan U E c)
           = snd (fold store_outcome (cli_outcomes U E c) (images c, url_mapping c))"
    and "mapping_file (cli_run_scan U E c) = Content (url_mapping (cli_run_scan U E c))"
    and "submitted (cli_run_scan U E c) = submitted c @ cli_read_content U E c"
    and "successful_captures (cli_run_scan U E c) = length (filter fst (cli_outcomes U E c))"
    and "failed_captures (cli_run_scan U E c)
           = length (filter (\<lambda>out. \<not> fst out) (cli_outcomes U E c))"
  using assms
  by (simp_all add: cli_run_scan_def Let_def cli_outcomes_def as_completed_cli_submit
      cli_submit_frame cli_capture_frame cli_loop_received cli_loop_successful cli_loop_failed cli_loop_frame
      cli_loop_store[THEN fst_snd_eq]
      save_url_mapping_def cli_save_to_history_def)


lemmas gui_loop_received = gui_loop_submitted[THEN conjunct1]
lemmas gui_loop_store = gui_loop_submitted[THEN conjunct2, THEN conjunct1]
lemmas gui_loop_successful = gui_loop_submitted[THEN conjunct2, THEN conjunct2]

lemma gui_run_scan_normal:
  assumes "gui_read_content U E g \<noteq> []"
  shows "received (gui_run_scan U E g)
           = received g @ take (rounds E 0 (length (gui_read_content U E g))) (gui_outcomes U E g)"
    and "images (gui_run_scan U E g)
           = fst (fold store_outcome
                   (take (rounds E 0 (length (gui_read_content U E g))) (gui_outcomes U E g))
                   (images g, url_mapping g))"
    and "url_mapping (gui_run_scan U E g)
           = snd (fold store_outcome
                   (take (rounds E 0 (length (gui_read_content U E g))) (gui_outcomes U E g))
                   (images g, url_mapping g))"
    and "mapping_file (gui_run_scan U E g) = Content (url_mapping (gui_run_scan U E g))"
    and "submitted (gui_run_scan U E g) = submitted g @ gui_read_content U E g"
    and "successful_captures (gui_run_scan U E g)
           = length (filter fst
               (take (rounds E 0 (length (gui_read_content U E g))) (gui_outcomes U E g)))"
  using assms
  by (simp_all add: gui_run_scan_def Let_def gui_outcomes_def as_completed_gui_submit
      gui_submit_frame gui_capture_frame gui_loop_received gui_loop_successful gui_loop_frame
      gui_loop_store[THEN fst_snd_eq]
      save_url_mapping_def gui_save_to_history_def)

section \<open>The concrete run, evaluated\<close>

lemmas char_defs = isspace_def url_char_def ascii_lower_def ascii_upper_def ascii_digit_def
  to_lower_def matches_ci_def scheme_char_def

lemmas urlparse_defs = urlparse_def split_scheme_def netloc_error_def checknetloc_def Let_def

lemma findall_scenario:
  "findall scenario_text = [py ''http://a.com/x'', py ''http://a.com/y'', py ''https://b.org'']"
  by (simp add: scenario_text_def py_def match_here_def pattern_tail_def char_defs)

lemma urlparse_scenario:
  "urlparse U (py ''http://a.com/x'') = Inr (py ''http'', py ''a.com'')"
  "urlparse U (py ''http://a.com/y'') = Inr (py ''http'', py ''a.com'')"
  "urlparse U (py ''https://b.org'') = Inr (py ''https'', py ''b.org'')"
  "urlparse U (py ''http://a.com'') = Inr (py ''http'', py ''a.com'')"
  by (simp_all add: py_def urlparse_defs char_defs)

lemma cli_extract_scenario:
  "cli_extract U scenario_text = [py ''http://a.com'', py ''https://b.org'']"
  unfolding cli_extract_def findall_scenario
  by (simp add: urlparse_scenario set_add_def) (simp add: py_def)

lemma cli_extract_empty: "cli_extract U [] = []"
  by (simp add: cli_extract_def)

lemma cli_read_content_demo:
  "cli_read_content U demo_env demo_cli = [py ''http://a.com'', py ''https://b.org'']"
  by (simp add: cli_read_content_def demo_env_def demo_cli_def cli_extract_scenario list_of_set_def)
     (simp add: py_def)

lemma gui_read_content_demo:
  "gui_read_content U demo_env demo_gui = [py ''http://a.com'', py ''https://b.org'']"
  by (simp add: gui_read_content_def demo_env_def gui_extract_eq cli_extract_scenario list_of_set_def)
     (simp add: py_def)

section \<open>The history file\<close>

lemma load_history_cli_save:
  "load_history (cli_save_to_history E n k c) =
     take 20 (\<lparr>date = now E, entry_input_file = input_file c,
      entry_output_dir = output_dir c, total_urls = n, successful = k\<rparr> # load_history c)"
  by (simp add: cli_save_to_history_def load_history_def Let_def)

lemma load_history_gui_save:
  "load_history (gui_save_to_history E n k g) =
     take 20 (\<lparr>date = now E,
      entry_input_file = (case input_file g of None \<Rightarrow> Some (py ''Unknown'') | Some f \<Rightarrow> Some f),
      entry_output_dir = output_dir g, total_urls = n, successful = k\<rparr> # load_history g)"
  by (simp add: gui_save_to_history_def load_history_def Let_def)

lemma cli_run_scan_history:
  "load_history (cli_run_scan U E c) =
     (if cli_read_content U E c = [] then load_history c
      else take 20 (\<lparr>date = now E, entry_input_file = input_file c,
        entry_output_dir = output_dir c, total_urls = length (cli_read_content U E c),
        successful = successful_captures (cli_run_scan U E c)\<rparr> # load_history c))"
  by (simp add: cli_run_scan_def Let_def load_history_def cli_save_to_history_def
      save_url_mapping_def cli_loop_frame)

lemma gui_run_scan_history:
  "load_history (gui_run_scan U E g) =
     (if gui_read_content U E g = [] then load_history g
      else take 20 (\<lparr>date = now E,
        entry_input_file = (case input_file g of None \<Rightarrow> Some (py ''Unknown'') | Some f \<Rightarrow> Some f),
        entry_output_dir = output_dir g, total_urls = length (gui_read_content U E g),
        successful = successful_captures (gui_run_scan U E g)\<rparr> # load_history g))"
  by (simp add: gui_run_scan_def Let_def load_history_def gui_save_to_history_def
      save_url_mapping_def gui_loop_frame)

lemma cli_init_history: "load_history (cli_init c) = load_history c"
  by (simp add: cli_init_def cli_load_url_mapping_def load_history_def split: json_file.splits)

lemma cli_run_scan_history_le:
  "length (load_history c) \<le> 20 \<Longrightarrow> length (load_history (cli_run_scan U E c)) \<le> 20"
  by (simp add: cli_run_scan_history)

lemma gui_run_scan_history_le:
  "length (load_history g) \<le> 20 \<Longrightarrow> length (load_history (gui_run_scan U E g)) \<le> 20"
  by (simp add: gui_run_scan_history)

lemma cli_main_history_le:
  "length (load_history c) \<le> 20 \<Longrightarrow> length (load_history (cli_main U E c)) \<le> 20"
  by (auto simp: cli_main_def Let_def cli_init_history cli_run_scan_history_le split: option.splits)

lemma cli_sessions_history_le:
  "length (load_history c) \<le> 20 \<Longrightarrow> length (load_history (fold (cli_main U) Es c)) \<le> 20"
  by (induction Es arbitrary: c) (auto simp: cli_main_history_le)

lemma gui_sessions_history_le:
  "length (load_history g) \<le> 20 \<Longrightarrow> length (load_history (fold (gui_run_scan U) Es g)) \<le> 20"
  by (induction Es arbitrary: g) (auto simp: gui_run_scan_history_le)

section \<open>Further properties of a run\<close>







lemma cli_run_scan_empty:
  "cli_read_content U E c = [] \<Longrightarrow>
     cli_run_scan U E c = c\<lparr>urls := [], events := events c @ [NoUrlsFound]\<rparr>"
  by (simp add: cli_run_scan_def Let_def)

lemma gui_run_scan_empty:
  "gui_read_content U E g = [] \<Longrightarrow>
     gui_run_scan U E g = g\<lparr>urls := [], events := events g @ [NoUrlsFound]\<rparr>"
  by (simp add: gui_run_scan_def Let_def)

lemma cli_run_scan_no_pool:
  assumes "cli_read_content U E c \<noteq> []" "threads c \<le> 0"
  shows "received (cli_run_scan U E c) = received c"
    and "images (cli_run_scan U E c) = images c"
    and "url_mapping (cli_run_scan U E c) = url_mapping c"
    and "submitted (cli_run_scan U E c) = submitted c"
    and "mapping_file (cli_run_scan U E c) = Content (url_mapping c)"
  using assms
  by (simp_all add: cli_run_scan_def Let_def save_url_mapping_def cli_save_to_history_def)

lemma cli_run_scan_store:
  "received (cli_run_scan U E c)
     = received c @ (if 0 < threads c then cli_outcomes U E c else [])"
  "images (cli_run_scan U E c)
     = fst (fold store_outcome (if 0 < threads c then cli_outcomes U E c else [])
             (images c, url_mapping c))"
  "url_mapping (cli_run_scan U E c)
     = snd (fold store_outcome (if 0 < threads c then cli_outcomes U E c else [])
             (images c, url_mapping c))"
  "submitted (cli_run_scan U E c)
     = submitted c @ (if 0 < threads c then cli_read_content U E c else [])"
proof -
  consider (empty) "cli_read_content U E c = []"
    | (nopool) "cli_read_content U E c \<noteq> []" "threads c \<le> 0"
    | (pool) "cli_read_content U E c \<noteq> []" "0 < threads c"
    by linarith
  then have "received (cli_run_scan U E c)
     = received c @ (if 0 < threads c then cli_outcomes U E c else [])
   \<and> images (cli_run_scan U E c)
     = fst (fold store_outcome (if 0 < threads c then cli_outcomes U E c else [])
             (images c, url_mapping c))
   \<and> url_mapping (cli_run_scan U E c)
     = snd (fold store_outcome (if 0 < threads c then cli_outcomes U E c else [])
             (images c, url_mapping c))
   \<and> submitted (cli_run_scan U E c)
     = submitted c @ (if 0 < threads c then cli_read_content U E c else [])"
  proof cases
    case empty
    then show ?thesis by (simp add: cli_run_scan_empty cli_outcomes_def)
  next
    case nopool
    then show ?thesis by (simp add: cli_run_scan_no_pool)
  next
    case pool
    then show ?thesis by (simp add: cli_run_scan_normal)
  qed
  then show
    "received (cli_run_scan U E c)
     = received c @ (if 0 < threads c then cli_outcomes U E c else [])"
    "images (cli_run_scan U E c)
     = fst (fold store_outcome (if 0 < threads c then cli_outcomes U E c else [])
             (images c, url_mapping c))"
    "url_mapping (cli_run_scan U E c)
     = snd (fold store_outcome (if 0 < threads c then cli_outcomes U E c else [])
             (images c, url_mapping c))"
    "submitted (cli_run_scan U E c)
     = submitted c @ (if 0 < threads c then cli_read_content U E c else [])"
    by blast+
qed

lemma gui_run_scan_store:
  "received (gui_run_scan U E g)
     = received g @ take (rounds E 0 (length (gui_read_content U E g))) (gui_outcomes U E g)"
  "images (gui_run_scan U E g)
     = fst (fold store_outcome
             (take (rounds E 0 (length (gui_read_content U E g))) (gui_outcomes U E g))
             (images g, url_mapping g))"
  "url_mapping (gui_run_scan U E g)
     = snd (fold store_outcome
             (take (rounds E 0 (length (gui_read_content U E g))) (gui_outcomes U E g))
             (images g, url_mapping g))"
  "submitted (gui_run_scan U E g) = submitted g @ gui_read_content U E g"
proof -
  have "received (gui_run_scan U E g)
     = received g @ take (rounds E 0 (length (gui_read_content U E g))) (gui_outcomes U E g)
   \<and> images (gui_run_scan U E g)
     = fst (fold store_outcome
             (take (rounds E 0 (length (gui_read_content U E g))) (gui_outcomes U E g))
             (images g, url_mapping g))
   \<and> url_mapping (gui_run_scan U E g)
     = snd (fold store_outcome
             (take (rounds E 0 (length (gui_read_content U E g))) (gui_outcomes U E g))
             (images g, url_mapping g))
   \<and> submitted (gui_run_scan U E g) = submitted g @ gui_read_content U E g"
  proof (cases "gui_read_content U E g = []")
    case True
    then show ?thesis by (simp add: gui_run_scan_empty gui_outcomes_def)
  next
    case False
    then show ?thesis by (simp add: gui_run_scan_normal)
  qed
  then show "received (gui_run_scan U E g)
     = received g @ take (rounds E 0 (length (gui_read_content U E g))) (gui_outcomes U E g)"
  "images (gui_run_scan U E g)
     = fst (fold store_outcome
             (take (rounds E 0 (length (gui_read_content U E g))) (gui_outcomes U E g))
             (images g, url_mapping g))"
  "url_mapping (gui_run_scan U E g)
     = snd (fold store_outcome
             (take (rounds E 0 (length (gui_read_content U E g))) (gui_outcomes U E g))
             (images g, url_mapping g))"
  "submitted (gui_run_scan U E g) = submitted g @ gui_read_content U E g"
    by blast+
qed

lemma rounds_0_exact:
  "K \<le> n \<Longrightarrow> \<forall>j < K. active_at_check E j \<Longrightarrow> (K < n \<longrightarrow> \<not> active_at_check E K)
     \<Longrightarrow> rounds E 0 n = K"
  using rounds_exact[of K n E 0] by simp

lemma fold_store_frame:
  "k \<notin> written_keys outs \<Longrightarrow> snd (fold store_outcome outs st) k = snd st k"
proof (induction outs arbitrary: st)
  case Nil
  then show ?case by simp
next
  case (Cons out outs)
  have k: "k \<notin> written_keys outs" using Cons.prems by (auto simp: written_keys_def)
  have "snd (store_outcome out st) k = snd st k"
    using Cons.prems by (auto simp: written_keys_def store_outcome_def split: prod.splits)
  with Cons.IH[OF k, of "store_outcome out st"] show ?case by simp
qed

lemma cli_run_scan_mapping_file:
  "mapping_file (cli_run_scan U E c) =
     (if cli_read_content U E c = [] then mapping_file c
      else Content (url_mapping (cli_run_scan U E c)))"
proof -
  consider (empty) "cli_read_content U E c = []"
    | (nopool) "cli_read_content U E c \<noteq> []" "threads c \<le> 0"
    | (pool) "cli_read_content U E c \<noteq> []" "0 < threads c"
    by linarith
  then show ?thesis
  proof cases
    case empty
    then show ?thesis by (simp add: cli_run_scan_empty)
  next
    case nopool
    then show ?thesis by (simp add: cli_run_scan_no_pool)
  next
    case pool
    then show ?thesis by (simp add: cli_run_scan_normal)
  qed
qed

lemma gui_run_scan_mapping_file:
  "mapping_file (gui_run_scan U E g) =
     (if gui_read_content U E g = [] then mapping_file g
      else Content (url_mapping (gui_run_scan U E g)))"
  by (cases "gui_read_content U E g = []") (simp_all add: gui_run_scan_empty gui_run_scan_normal)

lemma cli_run_scan_frame:
  "k \<notin> written_keys (new_outcomes c (cli_run_scan U E c)) \<Longrightarrow>
     url_mapping (cli_run_scan U E c) k = url_mapping c k"
  by (simp add: new_outcomes_def cli_run_scan_store fold_store_frame)

lemma gui_run_scan_frame:
  "k \<notin> written_keys (new_outcomes g (gui_run_scan U E g)) \<Longrightarrow>
     url_mapping (gui_run_scan U E g) k = url_mapping g k"
  by (simp add: new_outcomes_def gui_run_scan_store fold_store_frame)

lemma cli_init_loaded:
  "url_mapping (cli_init c0) k = Some v \<Longrightarrow> \<exists>m. mapping_file (cli_init c0) = Content m \<and> m k = Some v"
  by (cases "mapping_file c0") (simp_all add: cli_init_def cli_load_url_mapping_def)

lemma gui_init_loaded:
  "url_mapping (gui_init fs g0) k = Some v \<Longrightarrow>
     \<exists>m. mapping_file (gui_init fs g0) = Content m \<and> m k = Some v"
  by (cases "mapping_file g0") (simp_all add: gui_init_def gui_load_url_mapping_def)

lemma cli_run_scan_persisted:
  assumes "\<exists>m. mapping_file c = Content m \<and> m k = Some v" "url_mapping c k = Some v"
    "k \<notin> written_keys (new_outcomes c (cli_run_scan U E c))"
  shows "\<exists>m. mapping_file (cli_run_scan U E c) = Content m \<and> m k = Some v"
  using assms cli_run_scan_frame[of k c U E] by (simp add: cli_run_scan_mapping_file)

lemma gui_run_scan_persisted:
  assumes "\<exists>m. mapping_file g = Content m \<and> m k = Some v" "url_mapping g k = Some v"
    "k \<notin> written_keys (new_outcomes g (gui_run_scan U E g))"
  shows "\<exists>m. mapping_file (gui_run_scan U E g) = Content m \<and> m k = Some v"
  using assms gui_run_scan_frame[of k g U E] by (simp add: gui_run_scan_mapping_file)

lemma cli_init_received: "received (cli_init c0) = received c0"
  by (cases "mapping_file c0") (simp_all add: cli_init_def cli_load_url_mapping_def)

lemma cli_main_persisted:
  assumes "url_mapping (cli_init c0) k = Some v"
    "k \<notin> written_keys (new_outcomes c0 (cli_main U E c0))"
  shows "\<exists>m. mapping_file (cli_main U E c0) = Content m \<and> m k = Some v"
proof (cases "input_file (cli_init c0) = None \<or> input_file (cli_init c0) = Some []")
  case True
  then have "cli_main U E c0 = cli_init c0"
    by (auto simp: cli_main_def Let_def)
  then show ?thesis using cli_init_loaded[OF assms(1)] by simp
next
  case False
  then have m: "cli_main U E c0 = cli_run_scan U E (cli_init c0)"
    by (auto simp: cli_main_def Let_def split: option.splits)
  have "k \<notin> written_keys (new_outcomes (cli_init c0) (cli_run_scan U E (cli_init c0)))"
    using assms(2) by (simp add: m new_outcomes_def cli_init_received)
  then show ?thesis
    unfolding m using cli_run_scan_persisted[OF cli_init_loaded[OF assms(1)] assms(1)] by blast
qed

section \<open>More of the concrete run\<close>

lemma safe_name_demo:
  "safe_name_of U (py ''a.com'') = py ''a.com''" "safe_name_of U (py ''b.org'') = py ''b.org''"
  by (simp_all add: safe_name_of_def is_word_def py_def char_defs)

lemma path_demo:
  "path_join (py ''screenshots'') (py ''a.com.jpg'') = py ''screenshots/a.com.jpg''"
  "path_join (py ''screenshots'') (py ''a.com.png'') = py ''screenshots/a.com.png''"
  "basename (py ''screenshots/a.com.jpg'') = py ''a.com.jpg''"
  "basename (py ''screenshots/a.com.png'') = py ''a.com.png''"
  by (simp_all add: path_join_def basename_def py_def)

lemma env_demo:
  "pw_goto demo_env = (\<lambda>url t. None)"
  "pw_screenshot demo_env = (\<lambda>url r. if url = py ''https://b.org'' then Some (py ''timeout'') else None)"
  "pw_close demo_env = (\<lambda>url. None)"
  "done_at demo_env = (\<lambda>url. if url = py ''http://a.com'' then 70 else 5)"
  "active_at_start demo_env = (\<lambda>url. True)"
  "active_at_check demo_env = (\<lambda>i. True)"
  "pw_goto cancel_env = (\<lambda>url t. None)"
  "pw_screenshot cancel_env = (\<lambda>url r. if url = py ''https://b.org'' then Some (py ''timeout'') else None)"
  "pw_close cancel_env = (\<lambda>url. None)"
  "done_at cancel_env = (\<lambda>url. if url = py ''http://a.com'' then 70 else 5)"
  "active_at_start cancel_env = (\<lambda>url. True)"
  "active_at_check cancel_env = (\<lambda>i. i < 1)"
  "file_text cancel_env = file_text demo_env"
  "hash_rank cancel_env = hash_rank demo_env"
  by (simp_all add: demo_env_def cancel_env_def)

lemma urls_differ:
  "py ''http://a.com'' \<noteq> py ''https://b.org''" "py ''https://b.org'' \<noteq> py ''http://a.com''"
  by (simp_all add: py_def)

lemma cli_capture_demo:
  "cli_capture_screenshot U demo_env demo_cli (py ''http://a.com'')
     = (True, py ''http://a.com'', py ''screenshots/a.com.jpg'')"
  "cli_capture_screenshot U demo_env demo_cli (py ''https://b.org'')
     = (False, py ''https://b.org'', py ''timeout'')"
  by (simp_all add: cli_capture_screenshot_def cli_shot_request_def env_demo urlparse_scenario
      safe_name_demo Let_def urls_differ)
     (simp add: demo_cli_def path_join_def py_def)

lemma gui_capture_demo:
  "gui_capture U demo_env demo_gui (py ''http://a.com'')
     = (True, py ''http://a.com'', py ''screenshots/a.com.png'')"
  "gui_capture U demo_env demo_gui (py ''https://b.org'')
     = (False, py ''https://b.org'', py ''timeout'')"
  "gui_capture U cancel_env demo_gui (py ''http://a.com'')
     = (True, py ''http://a.com'', py ''screenshots/a.com.png'')"
  "gui_capture U cancel_env demo_gui (py ''https://b.org'')
     = (False, py ''https://b.org'', py ''timeout'')"
  by (simp_all add: gui_capture_def gui_shot_request_def env_demo urlparse_scenario
      safe_name_demo Let_def urls_differ)
     (simp_all add: demo_gui_def path_join_def py_def)

lemma gui_read_content_cancel:
  "gui_read_content U cancel_env demo_gui = [py ''http://a.com'', py ''https://b.org'']"
  by (simp add: gui_read_content_def cancel_env_def demo_env_def gui_extract_eq
      cli_extract_scenario list_of_set_def)
     (simp add: py_def)

lemma cli_outcomes_demo:
  "cli_outcomes U demo_env demo_cli =
     [(False, py ''https://b.org'', py ''timeout''),
      (True, py ''http://a.com'', py ''screenshots/a.com.jpg'')]"
  by (simp add: cli_outcomes_def cli_read_content_demo env_demo urls_differ cli_capture_demo)

lemma gui_outcomes_demo:
  "gui_outcomes U demo_env demo_gui =
     [(False, py ''https://b.org'', py ''timeout''),
      (True, py ''http://a.com'', py ''screenshots/a.com.png'')]"
  "gui_outcomes U cancel_env demo_gui =
     [(False, py ''https://b.org'', py ''timeout''),
      (True, py ''http://a.com'', py ''screenshots/a.com.png'')]"
  by (simp_all add: gui_outcomes_def gui_read_content_demo gui_read_content_cancel env_demo
      urls_differ gui_capture_demo)

section \<open>File names\<close>

lemma safe_name_no_slash: "47 \<notin> set (safe_name_of U netloc)"
  by (auto simp: safe_name_of_def is_word_def char_defs)

lemma basename_path_join:
  assumes "47 \<notin> set b"
  shows "basename (path_join a b) = b"
proof -
  have all: "\<forall>x \<in> set (rev b). x \<noteq> 47" using assms by auto
  have tw0: "takeWhile (\<lambda>c. c \<noteq> 47) (rev b) = rev b"
    using all by (simp only: takeWhile_eq_all_conv)
  have tw: "takeWhile (\<lambda>c. c \<noteq> 47) (rev b @ 47 # r) = rev b" for r
    by (simp add: takeWhile_tail tw0)
  have hd: "\<not> (b \<noteq> [] \<and> hd b = 47)" using assms by (cases b) auto
  have bn: "basename (x @ [47] @ b) = b" for x
    by (simp add: basename_def tw)
  have bn0: "basename b = b"
    by (simp add: basename_def tw0)
  show ?thesis
  proof (cases "a = []")
    case True
    then have "path_join a b = b" using hd by (simp add: path_join_def)
    then show ?thesis using bn0 by simp
  next
    case False
    show ?thesis
    proof (cases "last a = 47")
      case True
      obtain a' where a': "a = a' @ [47]"
        using False True by (metis append_butlast_last_id)
      have "path_join a b = a' @ [47] @ b"
        using hd unfolding a' by (simp add: path_join_def)
      then show ?thesis using bn by simp
    next
      case nl: False
      have "path_join a b = a @ [47] @ b"
        using hd False nl by (simp add: path_join_def)
      then show ?thesis using bn by simp
    qed
  qed
qed

lemma ext_no_slash: "47 \<notin> set (py ''.jpg'')" "47 \<notin> set (py ''.png'')"
  by (simp_all add: py_def)

lemma cli_capture_success:
  "cli_capture_screenshot U E c url = (True, u, fp) \<Longrightarrow>
     \<exists>scheme netloc. urlparse U url = Inr (scheme, netloc) \<and> u = url
       \<and> fp = path_join (output_dir c) (safe_name_of U netloc @ py ''.jpg'')
       \<and> pw_screenshot E url (cli_shot_request U c netloc) = None"
  by (auto simp: cli_capture_screenshot_def cli_shot_request_def Let_def
      split: option.splits sum.splits prod.splits)

lemma gui_capture_success:
  "gui_capture U E g url = (True, u, fp) \<Longrightarrow>
     \<exists>scheme netloc. urlparse U url = Inr (scheme, netloc) \<and> u = url
       \<and> fp = path_join (output_dir g) (safe_name_of U netloc @ py ''.png'')
       \<and> pw_screenshot E url (gui_shot_request U g netloc) = None"
  by (auto simp: gui_capture_def gui_shot_request_def Let_def
      split: option.splits sum.splits prod.splits if_splits)

lemma file_name_jpg: "basename (path_join d (safe_name_of U netloc @ py ''.jpg'')) = safe_name_of U netloc @ py ''.jpg''"
  by (rule basename_path_join) (simp add: safe_name_no_slash ext_no_slash)

lemma file_name_png: "basename (path_join d (safe_name_of U netloc @ py ''.png'')) = safe_name_of U netloc @ py ''.png''"
  by (rule basename_path_join) (simp add: safe_name_no_slash ext_no_slash)

lemma jpg_png_differ: "py ''.jpg'' \<noteq> py ''.png''"
  by (simp add: py_def)

section \<open>The claims\<close>





text \<open>
  C3: every capture task has a wall-clock budget of 60 seconds, after which it is
  recorded as a Failure "timed out". The code asks for it with
  \<open>future.result(timeout=60)\<close>, but on a future that \<open>as_completed\<close> has already handed
  over as done, so the timeout never fires: in the concrete run (the command line
  started with \<open>--timeout 120000\<close>) the task of \<open>http://a.com\<close> is done 70 seconds
  after its submission and is recorded as a Success by both entry points.
\<close>

theorem slow_task_recorded_as_success:
  "timeout slow_cli = 120000
   \<and> done_at demo_env (py ''http://a.com'') = 70
   \<and> received (cli_run_scan ascii_db demo_env slow_cli) =
       [(False, py ''https://b.org'', py ''timeout''),
        (True, py ''http://a.com'', py ''screenshots/a.com.jpg'')]
   \<and> images (cli_run_scan ascii_db demo_env slow_cli) = [py ''screenshots/a.com.jpg'']
   \<and> failed_captures (cli_run_scan ascii_db demo_env slow_cli) = 1
   \<and> received (gui_run_scan ascii_db demo_env demo_gui) =
       [(False, py ''https://b.org'', py ''timeout''),
        (True, py ''http://a.com'', py ''screenshots/a.com.png'')]
   \<and> images (gui_run_scan ascii_db demo_env demo_gui) = [py ''screenshots/a.com.png'']
   \<and> future_result (cli_submit ascii_db demo_env slow_cli (py ''http://a.com'')) 70 60
       = Inr (True, py ''http://a.com'', py ''screenshots/a.com.jpg'')"
proof -
  have t: "0 < threads slow_cli"
    by (simp add: slow_cli_def demo_cli_def)
  have rc: "cli_read_content ascii_db demo_env slow_cli = cli_read_content ascii_db demo_env demo_cli"
    by (simp add: slow_cli_def cli_read_content_def)
  have n: "cli_read_content ascii_db demo_env slow_cli \<noteq> []"
    by (simp add: rc cli_read_content_demo)
  have cap: "cli_capture_screenshot ascii_db demo_env slow_cli
      = cli_capture_screenshot ascii_db demo_env demo_cli"
    by (intro ext)
       (simp add: cli_capture_screenshot_def cli_shot_request_def slow_cli_def env_demo
         split: sum.splits prod.splits)
  have oc: "cli_outcomes ascii_db demo_env slow_cli = cli_outcomes ascii_db demo_env demo_cli"
    by (simp add: cli_outcomes_def rc cap)
  have r: "received slow_cli = []" "received demo_gui = []" "images slow_cli = []"
    "images demo_gui = []" "timeout slow_cli = 120000"
    by (simp_all add: slow_cli_def demo_cli_def demo_gui_def)
  have rd: "rounds demo_env 0 (Suc (Suc 0)) = Suc (Suc 0)"
    by (rule rounds_0_exact) (simp_all add: env_demo)
  show ?thesis
    using t n
    by (simp add: cli_run_scan_normal gui_run_scan_store oc cli_outcomes_demo gui_outcomes_demo r
        gui_read_content_demo rd store_outcome_def env_demo future_result_def cli_submit_def
        cap cli_capture_demo)
qed



text \<open>
  C5: the history append of a session puts the new entry in front of the loaded
  history and keeps the first 20 entries. So after a run that found URLs the history
  file has at most 20 entries and the entry of that run is at index 0, and when the
  history has at most 20 entries, it has at most 20 after any number of further
  sessions (command line processes, or scans of the viewer).
\<close>

theorem history_capped_newest_first:
  fixes c :: cli and g :: gui
  shows
  "load_history (cli_save_to_history E n k c)
     = take 20 (\<lparr>date = now E, entry_input_file = input_file c,
         entry_output_dir = output_dir c, total_urls = n, successful = k\<rparr> # load_history c)
   \<and> load_history (gui_save_to_history E n k g)
     = take 20 (\<lparr>date = now E,
         entry_input_file = (case input_file g of None \<Rightarrow> Some (py ''Unknown'') | Some f \<Rightarrow> Some f),
         entry_output_dir = output_dir g, total_urls = n, successful = k\<rparr> # load_history g)
   \<and> (cli_read_content U E c \<noteq> [] \<longrightarrow>
        length (load_history (cli_run_scan U E c)) \<le> 20
        \<and> load_history (cli_run_scan U E c) ! 0
            = \<lparr>date = now E, entry_input_file = input_file c,
               entry_output_dir = output_dir c,
               total_urls = length (cli_read_content U E c),
               successful = successful_captures (cli_run_scan U E c)\<rparr>)
   \<and> (gui_read_content U E g \<noteq> [] \<longrightarrow>
        length (load_history (gui_run_scan U E g)) \<le> 20
        \<and> load_history (gui_run_scan U E g) ! 0
            = \<lparr>date = now E,
               entry_input_file =
                 (case input_file g of None \<Rightarrow> Some (py ''Unknown'') | Some f \<Rightarrow> Some f),
               entry_output_dir = output_dir g,
               total_urls = length (gui_read_content U E g),
               successful = successful_captures (gui_run_scan U E g)\<rparr>)
   \<and> (length (load_history c) \<le> 20
        \<longrightarrow> length (load_history (fold (cli_main U) Es c)) \<le> 20)
   \<and> (length (load_history g) \<le> 20
        \<longrightarrow> length (load_history (fold (gui_run_scan U) Es g)) \<le> 20)"
  by (simp add: load_history_cli_save load_history_gui_save cli_run_scan_history
      gui_run_scan_history cli_sessions_history_le gui_sessions_history_le)



theorem history_capped_newest_first_witness:
  "length (load_history (cli_run_scan ascii_db demo_env demo_cli)) \<le> 20
   \<and> date (load_history (cli_run_scan ascii_db demo_env demo_cli) ! 0) = py ''2024-05-01 12:00:00''
   \<and> total_urls (load_history (cli_run_scan ascii_db demo_env demo_cli) ! 0) = 2
   \<and> total_urls (load_history (gui_run_scan ascii_db demo_env demo_gui) ! 0) = 2
   \<and> length (load_history (fold (cli_main ascii_db) [demo_env, demo_env] demo_cli)) \<le> 20
   \<and> length (load_history (fold (gui_run_scan ascii_db) [demo_env, demo_env] demo_gui)) \<le> 20"
proof -
  have h: "length (load_history demo_cli) \<le> 20" "length (load_history demo_gui) \<le> 20"
    by (simp_all add: load_history_def demo_cli_def demo_gui_def)
  have n: "now demo_env = py ''2024-05-01 12:00:00''"
    by (simp add: demo_env_def)
  show ?thesis
    using history_capped_newest_first[where E = demo_env and c = demo_cli and g = demo_gui
        and U = ascii_db and Es = "[demo_env, demo_env]"] h
    by (simp add: cli_read_content_demo gui_read_content_demo n)
qed

text \<open>
  C6, as stated: the file name is the host with every non-word character replaced by
  an underscore. The dot is no word character and the code keeps it: for
  \<open>http://a.com\<close> the file is \<open>a.com.jpg\<close>, not \<open>a_com.jpg\<close>.
\<close>

theorem sanitize_keeps_dot_counterexample:
  "snd (snd (cli_capture_screenshot ascii_db demo_env demo_cli (py ''http://a.com'')))
     = py ''screenshots/a.com.jpg''
   \<and> urlparse ascii_db (py ''http://a.com'') = Inr (py ''http'', py ''a.com'')
   \<and> spec_sanitize ascii_db (py ''a.com'') = py ''a_com''
   \<and> safe_name_of ascii_db (py ''a.com'') = py ''a.com''
   \<and> safe_name_of ascii_db (py ''a.com'') \<noteq> spec_sanitize ascii_db (py ''a.com'')"
proof -
  have "spec_sanitize ascii_db (py ''a.com'') = py ''a_com''"
    by (simp add: spec_sanitize_def is_word_def py_def char_defs)
  moreover have "py ''a.com'' \<noteq> py ''a_com''" by (simp add: py_def)
  ultimately show ?thesis
    by (simp add: cli_capture_demo urlparse_scenario safe_name_demo)
qed

text \<open>
  C6, amended: the file name of a successful capture is the netloc of the URL in
  which every character other than a word character, a hyphen and a dot is replaced
  by an underscore, followed by the extension of the entry point. It depends on the
  URL only: two captures of the same URL, in any two sessions, give the same file name.
\<close>

theorem file_name_from_netloc:
  fixes c c' :: cli and g g' :: gui
  shows
  "safe_name_of U netloc
     = map (\<lambda>ch. if is_word U ch \<or> ch = 45 \<or> ch = 46 then ch else 95) netloc
   \<and> (cli_capture_screenshot U E c url = (True, u, fp) \<longrightarrow>
        (\<exists>scheme netloc. urlparse U url = Inr (scheme, netloc)
           \<and> basename fp = safe_name_of U netloc @ py ''.jpg''))
   \<and> (gui_capture U E g url = (True, u, fp) \<longrightarrow>
        (\<exists>scheme netloc. urlparse U url = Inr (scheme, netloc)
           \<and> basename fp = safe_name_of U netloc @ py ''.png''))
   \<and> (cli_capture_screenshot U E c url = (True, u, fp)
        \<and> cli_capture_screenshot U E' c' url = (True, u', fp') \<longrightarrow> basename fp' = basename fp)
   \<and> (gui_capture U E g url = (True, u, fp)
        \<and> gui_capture U E' g' url = (True, u', fp') \<longrightarrow> basename fp' = basename fp)"
proof -
  have a: "safe_name_of U netloc
     = map (\<lambda>ch. if is_word U ch \<or> ch = 45 \<or> ch = 46 then ch else 95) netloc"
    by (auto simp: safe_name_of_def is_word_def)
  have b: "\<exists>scheme netloc. urlparse U url = Inr (scheme, netloc)
           \<and> basename fp = safe_name_of U netloc @ py ''.jpg''"
    if "cli_capture_screenshot U E c url = (True, u, fp)" for E c u fp
    using cli_capture_success[OF that] file_name_jpg by auto
  have d: "\<exists>scheme netloc. urlparse U url = Inr (scheme, netloc)
           \<and> basename fp = safe_name_of U netloc @ py ''.png''"
    if "gui_capture U E g url = (True, u, fp)" for E g u fp
    using gui_capture_success[OF that] file_name_png by auto
  have e: "basename fp' = basename fp"
    if "cli_capture_screenshot U E c url = (True, u, fp)"
       "cli_capture_screenshot U E' c' url = (True, u', fp')"
    using b[OF that(1)] b[OF that(2)] by auto
  have f: "basename fp' = basename fp"
    if "gui_capture U E g url = (True, u, fp)"
       "gui_capture U E' g' url = (True, u', fp')"
    using d[OF that(1)] d[OF that(2)] by auto
  show ?thesis
    using a b d e f by blast
qed

theorem file_name_from_netloc_witness:
  "safe_name_of ascii_db (py ''a.b-c:80'') = py ''a.b-c_80''
   \<and> basename (py ''screenshots/a.com.jpg'') = safe_name_of ascii_db (py ''a.com'') @ py ''.jpg''
   \<and> basename (py ''screenshots/a.com.png'') = safe_name_of ascii_db (py ''a.com'') @ py ''.png''"
proof -
  have w: "map (\<lambda>ch. if is_word ascii_db ch \<or> ch = 45 \<or> ch = 46 then ch else 95) (py ''a.b-c:80'')
      = py ''a.b-c_80''"
    by (simp add: is_word_def py_def char_defs ascii_db_def)
  have c: "cli_capture_screenshot ascii_db demo_env demo_cli (py ''http://a.com'')
          = (True, py ''http://a.com'', py ''screenshots/a.com.jpg'')"
    by (rule cli_capture_demo)
  have g: "gui_capture ascii_db demo_env demo_gui (py ''http://a.com'')
          = (True, py ''http://a.com'', py ''screenshots/a.com.png'')"
    by (rule gui_capture_demo)
  note jpg = file_name_from_netloc[where U = ascii_db and netloc = "py ''a.b-c:80''"
      and E = demo_env and c = demo_cli and g = demo_gui and url = "py ''http://a.com''"
      and u = "py ''http://a.com''" and fp = "py ''screenshots/a.com.jpg''"]
  note png = file_name_from_netloc[where U = ascii_db and netloc = "py ''a.b-c:80''"
      and E = demo_env and c = demo_cli and g = demo_gui and url = "py ''http://a.com''"
      and u = "py ''http://a.com''" and fp = "py ''screenshots/a.com.png''"]
  have 1: "safe_name_of ascii_db (py ''a.b-c:80'') = py ''a.b-c_80''"
    using jpg[THEN conjunct1] w by (simp only:)
  have "\<exists>scheme netloc. urlparse ascii_db (py ''http://a.com'') = Inr (scheme, netloc)
          \<and> basename (py ''screenshots/a.com.jpg'') = safe_name_of ascii_db netloc @ py ''.jpg''"
    using jpg[THEN conjunct2, THEN conjunct1] c by (rule mp)
  then have 2: "basename (py ''screenshots/a.com.jpg'')
      = safe_name_of ascii_db (py ''a.com'') @ py ''.jpg''"
    unfolding urlparse_scenario by blast
  have "\<exists>scheme netloc. urlparse ascii_db (py ''http://a.com'') = Inr (scheme, netloc)
          \<and> basename (py ''screenshots/a.com.png'') = safe_name_of ascii_db netloc @ py ''.png''"
    using png[THEN conjunct2, THEN conjunct2, THEN conjunct1] g by (rule mp)
  then have 3: "basename (py ''screenshots/a.com.png'')
      = safe_name_of ascii_db (py ''a.com'') @ py ''.png''"
    unfolding urlparse_scenario by blast
  show ?thesis
    using 1 2 3 by (intro conjI)
qed

text \<open>
  C7: when there is no input file name, the input cannot be read or extraction
  yields no URL (as for the empty text), the run records the no-URLs notice, keeps the empty URL list and does nothing
  else: no pool is started and nothing is submitted, and the history file is not
  written. The run returns a state, it does not fail.
\<close>

theorem no_urls_ends_before_pool:
  fixes c :: cli and g :: gui
  shows
  "(input_file c = None \<or> input_file c = Some [] \<or> file_text E = None
      \<or> (\<exists>text. file_text E = Some text \<and> cli_extract U text = [])
      \<longrightarrow> cli_run_scan U E c = c\<lparr>urls := [], events := events c @ [NoUrlsFound]\<rparr>
        \<and> history_file (cli_run_scan U E c) = history_file c
        \<and> submitted (cli_run_scan U E c) = submitted c)
   \<and> (file_text E = None \<or> (\<exists>text. file_text E = Some text \<and> gui_extract U text = [])
      \<longrightarrow> gui_run_scan U E g = g\<lparr>urls := [], events := events g @ [NoUrlsFound]\<rparr>
        \<and> history_file (gui_run_scan U E g) = history_file g
        \<and> submitted (gui_run_scan U E g) = submitted g)
   \<and> cli_extract U [] = [] \<and> gui_extract U [] = []"
proof -
  have a: "cli_read_content U E c = []"
    if "input_file c = None \<or> input_file c = Some [] \<or> file_text E = None
        \<or> (\<exists>text. file_text E = Some text \<and> cli_extract U text = [])"
    using that by (auto simp: cli_read_content_def list_of_set_def split: option.splits)
  have b: "gui_read_content U E g = []"
    if "file_text E = None \<or> (\<exists>text. file_text E = Some text \<and> gui_extract U text = [])"
    using that by (auto simp: gui_read_content_def list_of_set_def split: option.splits)
  show ?thesis
    using a b by (auto simp: cli_run_scan_def gui_run_scan_def Let_def cli_extract_empty gui_extract_eq)
qed

theorem no_urls_ends_before_pool_witness:
  "events (cli_run_scan ascii_db empty_env demo_cli) = [NoUrlsFound]
   \<and> history_file (cli_run_scan ascii_db empty_env demo_cli) = Missing
   \<and> submitted (cli_run_scan ascii_db empty_env demo_cli) = []
   \<and> events (gui_run_scan ascii_db empty_env demo_gui) = [NoUrlsFound]
   \<and> history_file (gui_run_scan ascii_db empty_env demo_gui) = Missing
   \<and> submitted (gui_run_scan ascii_db empty_env demo_gui) = []"
proof -
  have e: "file_text empty_env = Some []" by (simp add: empty_env_def)
  have "\<exists>text. file_text empty_env = Some text \<and> cli_extract ascii_db text = []"
       "\<exists>text. file_text empty_env = Some text \<and> gui_extract ascii_db text = []"
    using e by (simp_all add: cli_extract_empty gui_extract_eq)
  then show ?thesis
    using no_urls_ends_before_pool[where E = empty_env and U = ascii_db and c = demo_cli
        and g = demo_gui]
    by (simp add: demo_cli_def demo_gui_def)
qed

text \<open>
  C8: the extraction of the command line entry point and the extraction of the
  graphical entry point give the same URLs on every text, also after \<open>list(urls)\<close>
  under the same enumeration order; the two \<open>read_content\<close> agree on every readable or
  unreadable input whenever the command line has an input file name.
\<close>

theorem cli_gui_extraction_equal:
  "cli_extract U text = gui_extract U text
   \<and> list_of_set r (cli_extract U text) = list_of_set r (gui_extract U text)
   \<and> cli_read_content U E c
       = (if input_file c = None \<or> input_file c = Some [] then [] else gui_read_content U E g)"
  by (auto simp: gui_extract_eq cli_read_content_def gui_read_content_def split: option.splits)

theorem cli_gui_extraction_equal_witness:
  "gui_extract ascii_db scenario_text = [py ''http://a.com'', py ''https://b.org'']
   \<and> gui_read_content ascii_db demo_env demo_gui = cli_read_content ascii_db demo_env demo_cli"
  using cli_gui_extraction_equal[of ascii_db scenario_text length demo_env demo_cli demo_gui]
  by (simp add: cli_extract_scenario demo_cli_def py_def)

text \<open>
  C9: a run changes the URL mapping only at the file names of the Success outcomes it
  received; every other key keeps its value. So a key of the mapping loaded at the
  start of the session that no Success outcome of the session overwrites is in the
  mapping file at the end of the session with its original value, for the command
  line process and for a scan of the viewer.
\<close>

theorem scan_keeps_other_mapping_entries:
  fixes c c0 :: cli and g g0 :: gui
  shows
  "(k \<notin> written_keys (new_outcomes c (cli_run_scan U E c))
      \<longrightarrow> url_mapping (cli_run_scan U E c) k = url_mapping c k)
   \<and> (k \<notin> written_keys (new_outcomes g (gui_run_scan U E g))
      \<longrightarrow> url_mapping (gui_run_scan U E g) k = url_mapping g k)
   \<and> (url_mapping (cli_init c0) k = Some v
       \<and> k \<notin> written_keys (new_outcomes c0 (cli_main U E c0))
      \<longrightarrow> (\<exists>m. mapping_file (cli_main U E c0) = Content m \<and> m k = Some v))
   \<and> (url_mapping (gui_init fs g0) k = Some v
       \<and> k \<notin> written_keys (new_outcomes (gui_init fs g0) (gui_run_scan U E (gui_init fs g0)))
      \<longrightarrow> (\<exists>m. mapping_file (gui_run_scan U E (gui_init fs g0)) = Content m \<and> m k = Some v))"
  using cli_run_scan_frame[of k c U E] gui_run_scan_frame[of k g U E]
    cli_main_persisted[of c0 k v U E]
    gui_run_scan_persisted[OF gui_init_loaded, of fs g0 k v U E]
  by blast

theorem scan_keeps_other_mapping_entries_witness:
  "url_mapping (cli_run_scan ascii_db demo_env demo_cli) (py ''old.jpg'')
     = Some (py ''http://old.example'')
   \<and> url_mapping (gui_run_scan ascii_db demo_env demo_gui) (py ''old.png'')
     = Some (py ''http://old.example'')
   \<and> (\<exists>m. mapping_file (cli_main ascii_db demo_env demo_cli) = Content m
          \<and> m (py ''old.jpg'') = Some (py ''http://old.example''))
   \<and> (\<exists>m. mapping_file (gui_run_scan ascii_db demo_env (gui_init [] demo_gui)) = Content m
          \<and> m (py ''old.png'') = Some (py ''http://old.example''))"
proof -
  have r: "received demo_cli = []" "received demo_gui = []"
    by (simp_all add: demo_cli_def demo_gui_def)
  have ic: "cli_init demo_cli = demo_cli"
    by (simp add: cli_init_def cli_load_url_mapping_def demo_cli_def)
  have ig: "gui_init [] demo_gui = demo_gui"
    by (simp add: gui_init_def gui_load_url_mapping_def demo_gui_def)
  have "input_file demo_cli = Some (py ''urls.txt'')" "py ''urls.txt'' \<noteq> []"
    by (simp_all add: demo_cli_def py_def)
  then have mc: "cli_main ascii_db demo_env demo_cli = cli_run_scan ascii_db demo_env demo_cli"
    by (simp add: cli_main_def ic)
  have rc: "received (cli_run_scan ascii_db demo_env demo_cli)
      = cli_outcomes ascii_db demo_env demo_cli"
    by (simp add: cli_run_scan_store r) (simp add: demo_cli_def)
  have rg: "received (gui_run_scan ascii_db demo_env demo_gui)
      = gui_outcomes ascii_db demo_env demo_gui"
    by (simp add: gui_run_scan_store r gui_read_content_demo rounds_def env_demo
        gui_outcomes_demo)
  have kc: "py ''old.jpg''
      \<notin> written_keys (new_outcomes demo_cli (cli_run_scan ascii_db demo_env demo_cli))"
    by (simp add: new_outcomes_def r rc cli_outcomes_demo written_keys_def path_demo)
       (simp add: py_def)
  have kg: "py ''old.png''
      \<notin> written_keys (new_outcomes demo_gui (gui_run_scan ascii_db demo_env demo_gui))"
    by (simp add: new_outcomes_def r rg gui_outcomes_demo written_keys_def path_demo)
       (simp add: py_def)
  have m: "url_mapping demo_cli (py ''old.jpg'') = Some (py ''http://old.example'')"
     "url_mapping demo_gui (py ''old.png'') = Some (py ''http://old.example'')"
    by (simp_all add: demo_cli_def demo_gui_def)
  show ?thesis
    using scan_keeps_other_mapping_entries[where k = "py ''old.jpg''" and c = demo_cli
        and U = ascii_db and E = demo_env and g = demo_gui and ?c0.0 = demo_cli
        and v = "py ''http://old.example''" and fs = "[]" and ?g0.0 = demo_gui]
      scan_keeps_other_mapping_entries[where k = "py ''old.png''" and c = demo_cli
        and U = ascii_db and E = demo_env and g = demo_gui and ?c0.0 = demo_cli
        and v = "py ''http://old.example''" and fs = "[]" and ?g0.0 = demo_gui]
      kc kg m
    by (simp add: ic ig mc)
qed

text \<open>
  C10: the command line capture asks the browser for a JPEG at
  \<open><sanitized netloc>.jpg\<close>, the capture of the viewer for a JPEG at
  \<open><sanitized netloc>.png\<close>; when both capture the same URL, the two file names, which
  are the keys under which the URL is recorded in the URL mapping, differ.
\<close>

theorem cli_jpg_gui_png:
  fixes c :: cli and g :: gui
  shows
  "shot_path (cli_shot_request U c netloc)
     = path_join (output_dir c) (safe_name_of U netloc @ py ''.jpg'')
   \<and> shot_type (cli_shot_request U c netloc) = py ''jpeg''
   \<and> shot_path (gui_shot_request U g netloc)
     = path_join (output_dir g) (safe_name_of U netloc @ py ''.png'')
   \<and> shot_type (gui_shot_request U g netloc) = py ''jpeg''
   \<and> (cli_capture_screenshot U E c url = (True, u, fp)
        \<and> gui_capture U E' g url = (True, u', fp') \<longrightarrow>
        (\<exists>scheme netloc. urlparse U url = Inr (scheme, netloc)
           \<and> pw_screenshot E url (cli_shot_request U c netloc) = None
           \<and> pw_screenshot E' url (gui_shot_request U g netloc) = None
           \<and> basename fp = safe_name_of U netloc @ py ''.jpg''
           \<and> basename fp' = safe_name_of U netloc @ py ''.png'')
        \<and> basename fp \<noteq> basename fp'
        \<and> url_mapping (cli_process i (Inr (True, u, fp)) c) (basename fp) = Some url
        \<and> url_mapping (gui_process t i (Inr (True, u', fp')) g) (basename fp') = Some url)"
proof -
  have m: "url_mapping (cli_process i (Inr (True, u, fp)) c) (basename fp) = Some u"
    "url_mapping (gui_process t i (Inr (True, u', fp')) g) (basename fp') = Some u'"
    by (simp_all add: cli_process_def gui_process_def Let_def)
  have "(\<exists>scheme netloc. urlparse U url = Inr (scheme, netloc)
           \<and> pw_screenshot E url (cli_shot_request U c netloc) = None
           \<and> pw_screenshot E' url (gui_shot_request U g netloc) = None
           \<and> basename fp = safe_name_of U netloc @ py ''.jpg''
           \<and> basename fp' = safe_name_of U netloc @ py ''.png'')
        \<and> basename fp \<noteq> basename fp' \<and> u = url \<and> u' = url"
    if "cli_capture_screenshot U E c url = (True, u, fp)" "gui_capture U E' g url = (True, u', fp')"
    using cli_capture_success[OF that(1)] gui_capture_success[OF that(2)]
    by (auto simp: file_name_jpg file_name_png jpg_png_differ)
  then show ?thesis
    using m by (simp add: cli_shot_request_def gui_shot_request_def)
qed

theorem cli_jpg_gui_png_witness:
  "basename (py ''screenshots/a.com.jpg'') \<noteq> basename (py ''screenshots/a.com.png'')
   \<and> shot_type (cli_shot_request ascii_db demo_cli (py ''a.com'')) = py ''jpeg''
   \<and> shot_type (gui_shot_request ascii_db demo_gui (py ''a.com'')) = py ''jpeg''
   \<and> url_mapping (cli_process 0 (Inr (True, py ''http://a.com'', py ''screenshots/a.com.jpg'')) demo_cli)
        (basename (py ''screenshots/a.com.jpg'')) = Some (py ''http://a.com'')
   \<and> url_mapping (gui_process 2 0 (Inr (True, py ''http://a.com'', py ''screenshots/a.com.png'')) demo_gui)
        (basename (py ''screenshots/a.com.png'')) = Some (py ''http://a.com'')"
  using cli_jpg_gui_png[of ascii_db demo_cli "py ''a.com''" demo_gui demo_env "py ''http://a.com''"
      "py ''http://a.com''" "py ''screenshots/a.com.jpg''" demo_env "py ''http://a.com''"
      "py ''screenshots/a.com.png''" 0 2]
  by (simp add: cli_capture_demo gui_capture_demo)

end
